theory Spec2Isabelle
  imports Main "HOL-Library.AList"
begin

section \<open>Python values used by the curation notebook\<close>

text \<open>
  The notebook \<^verbatim>\<open>curated_compound_swiss_target.ipynb\<close> is modelled cell by cell: Cell 2
  (reading and validating the input), Cell 3 (\<^verbatim>\<open>get_cid_and_smiles\<close>), Cell 4 (the
  processing loop) and Cell 5 (quality control). Cell 1 creates the results folder and
  defines \<^verbatim>\<open>write_log\<close>; Cell 6 offers the files for download. Output to the console
  (\<^verbatim>\<open>print\<close>) and the pause between requests (\<^verbatim>\<open>time.sleep\<close>) are not part of the
  model.

  A Python \<^verbatim>\<open>str\<close> is a sequence of Unicode code points, so it is a list of naturals
  (a HOL \<open>char\<close> is one byte, and \<open>\<alpha>\<close> is the single code point 945).
  A Python \<^verbatim>\<open>bytes\<close> (the body of an HTTP reply) is a HOL \<open>string\<close>.
\<close>

type_synonym pystr = "nat list"
type_synonym bytes = string

definition ascii :: "string \<Rightarrow> pystr" where
  "ascii s = map of_char s"

text \<open>
  \<^verbatim>\<open>str.isspace\<close> for one code point: the code points CPython treats as whitespace
  (U+0009..U+000D, U+001C..U+0020, U+0085, U+00A0, U+1680, U+2000..U+200A, U+2028, U+2029,
  U+202F, U+205F, U+3000). \<^verbatim>\<open>str.strip()\<close> removes them at both ends.
\<close>

definition isspace :: "nat \<Rightarrow> bool" where
  "isspace c \<longleftrightarrow>
     (9 \<le> c \<and> c \<le> 13) \<or> (28 \<le> c \<and> c \<le> 32) \<or> c = 133 \<or> c = 160 \<or> c = 5760 \<or>
     (8192 \<le> c \<and> c \<le> 8202) \<or> c = 8232 \<or> c = 8233 \<or> c = 8239 \<or> c = 8287 \<or> c = 12288"

definition strip :: "pystr \<Rightarrow> pystr" where
  "strip s = rev (dropWhile isspace (rev (dropWhile isspace s)))"

text \<open>\<^verbatim>\<open>s.replace(old, new)\<close> where \<^verbatim>\<open>old\<close> is a single code point.\<close>

fun str_replace :: "pystr \<Rightarrow> nat \<Rightarrow> pystr \<Rightarrow> pystr" where
  "str_replace [] old new = []"
| "str_replace (c # s) old new =
     (if c = old then new @ str_replace s old new else c # str_replace s old new)"

text \<open>
  \<^verbatim>\<open>list(dict.fromkeys(xs))\<close>: the keys of a dict keep the order of their first
  insertion, and inserting a key that is already there changes nothing.
\<close>

definition dict_fromkeys :: "'a list \<Rightarrow> 'a list" where
  "dict_fromkeys xs = foldl (\<lambda>d k. if k \<in> set d then d else d @ [k]) [] xs"

text \<open>\<^verbatim>\<open>sub in s\<close> for two strings: \<^verbatim>\<open>sub\<close> occurs in \<^verbatim>\<open>s\<close> as a substring.\<close>

fun str_contains :: "pystr \<Rightarrow> pystr \<Rightarrow> bool" where
  "str_contains sub [] = (sub = [])"
| "str_contains sub (c # s) = (take (length sub) (c # s) = sub \<or> str_contains sub s)"

section \<open>Cell 3: the candidate names of \<^verbatim>\<open>get_cid_and_smiles\<close>\<close>

text \<open>
  Lines 143 to 147 of the notebook:
  \<^verbatim>\<open>
  original_name = compound_name.strip()
  alpha_name = original_name.replace('\<alpha>', 'alpha').replace('\<beta>', 'beta').replace('\<gamma>', 'gamma')
  names_to_try = list(dict.fromkeys([original_name, alpha_name]))
  \<close>
  The three letters are U+03B1, U+03B2 and U+03B3.
\<close>

definition greek_alpha :: nat where "greek_alpha = 945"
definition greek_beta :: nat where "greek_beta = 946"
definition greek_gamma :: nat where "greek_gamma = 947"

definition alpha_name :: "pystr \<Rightarrow> pystr" where
  "alpha_name original_name =
     str_replace (str_replace (str_replace original_name greek_alpha (ascii ''alpha''))
                    greek_beta (ascii ''beta''))
       greek_gamma (ascii ''gamma'')"

definition names_to_try :: "pystr \<Rightarrow> pystr list" where
  "names_to_try compound_name =
     (let original_name = strip compound_name
      in dict_fromkeys [original_name, alpha_name original_name])"

text \<open>The spelled-out form of one code point, for stating what the variant is.\<close>

definition spell_greek :: "nat \<Rightarrow> pystr" where
  "spell_greek c =
     (if c = greek_alpha then ascii ''alpha''
      else if c = greek_beta then ascii ''beta''
      else if c = greek_gamma then ascii ''gamma''
      else [c])"

section \<open>Values, exceptions and the run log\<close>

text \<open>
  The values that flow through the notebook: what \<^verbatim>\<open>json.loads\<close> returns (\<^verbatim>\<open>None\<close>,
  booleans, numbers, strings, lists, dicts) and what a table cell holds (a string, a
  number, NaN for an empty cell). A dict is an association list in insertion order.
\<close>

datatype pyfloat = Finite int int | Infinity bool | NaN

datatype pyval =
    PNone
  | PBool bool
  | PInt int
  | PFloat pyfloat
  | PStr pystr
  | PList "pyval list"
  | PDict "(pystr \<times> pyval) list"

text \<open>
  The exceptions that occur. \<^verbatim>\<open>KeyboardInterrupt\<close> and \<^verbatim>\<open>SystemExit\<close> derive from
  \<^verbatim>\<open>BaseException\<close> only, so \<^verbatim>\<open>except Exception\<close> does not catch them.
\<close>

datatype exn =
    URLError
  | HTTPError nat
  | TimeoutError
  | JSONDecodeError
  | UnicodeDecodeError
  | UnicodeEncodeError
  | KeyError
  | IndexError
  | TypeError
  | ValueError
  | FileNotFoundError
  | ParserError
  | AttributeError
  | KeyboardInterrupt
  | SystemExit

fun is_Exception :: "exn \<Rightarrow> bool" where
  "is_Exception KeyboardInterrupt = False"
| "is_Exception SystemExit = False"
| "is_Exception e = True"

definition bind_exn :: "exn + 'a \<Rightarrow> ('a \<Rightarrow> exn + 'b) \<Rightarrow> exn + 'b" where
  "bind_exn r f = (case r of Inl e \<Rightarrow> Inl e | Inr v \<Rightarrow> f v)"

text \<open>\<^verbatim>\<open>v[key]\<close> with a string key, and \<^verbatim>\<open>v[0]\<close>, as Python evaluates them.\<close>

fun getitem_key :: "pyval \<Rightarrow> pystr \<Rightarrow> exn + pyval" where
  "getitem_key (PDict kvs) k = (case map_of kvs k of None \<Rightarrow> Inl KeyError | Some v \<Rightarrow> Inr v)"
| "getitem_key v k = Inl TypeError"

fun getitem_0 :: "pyval \<Rightarrow> exn + pyval" where
  "getitem_0 (PList []) = Inl IndexError"
| "getitem_0 (PList (v # vs)) = Inr v"
| "getitem_0 (PStr []) = Inl IndexError"
| "getitem_0 (PStr (c # s)) = Inr (PStr [c])"
| "getitem_0 (PDict kvs) = Inl KeyError"
| "getitem_0 v = Inl TypeError"

text \<open>
  One constructor for each call site of \<^verbatim>\<open>write_log\<close>, carrying the values the message
  interpolates. The time stamp that \<^verbatim>\<open>write_log\<close> puts in front is left out.
\<close>

datatype log_event =
    LogReadOk
  | LogTotalCompounds nat
  | LogColumns "pystr list"
  | LogDuplicates nat
  | LogCriticalNotFound
  | LogCriticalReadFailed exn
  | LogSearching pystr
  | LogFoundCID pyval
  | LogSuccess pyval
  | LogFailedFor pystr exn
  | LogAllFailed pystr
  | LogNoInput
  | LogStarting nat
  | LogProcessing nat nat pystr
  | LogRule
  | LogCompleted
  | LogTotalProcessed nat
  | LogSuccessful nat
  | LogFailedCount nat
  | LogSuccessRate nat nat
  | LogFailedHeader
  | LogFailedName pystr
  | LogResultsSaved
  | LogQCPhase
  | LogQCResults
  | LogInitialSuccessful nat
  | LogRemoved nat
  | LogFinalClean nat
  | LogCleanSaved
  | LogReady
  | LogFinalStatistics
  | LogOriginalCompounds nat
  | LogSuccessfullyProcessed nat
  | LogReadyForSwissTarget nat
  | LogOverallRate nat nat
  | LogNoResults

section \<open>The world outside the notebook\<close>

text \<open>
  A result row is the dict \<^verbatim>\<open>result_row\<close>; a result table is the list of rows a
  \<^verbatim>\<open>DataFrame\<close> is built from.

  The world holds the run log, the state of the external service (of any type \<open>'n\<close>: a
  request may change it, and a reply may depend on it), and the two files of the results
  folder, absent until \<^verbatim>\<open>to_csv\<close> writes them.
\<close>

type_synonym row = "(pystr \<times> pyval) list"

record 'n world =
  log_lines :: "log_event list"
  net :: 'n
  results_csv :: "row list option"
  clean_csv :: "row list option"

text \<open>
  What the notebook calls but does not define:
  \<^item> \<open>request_cids\<close>: lines 154 to 158, \<^verbatim>\<open>urllib.parse.quote\<close>, the name URL,
    \<^verbatim>\<open>urlopen(cid_url, timeout=20)\<close> and \<^verbatim>\<open>read()\<close>: the reply body or the exception raised;
  \<^item> \<open>request_smiles\<close>: lines 166 to 169, the same for the URL built from \<^verbatim>\<open>cid_result\<close>;
  \<^item> \<open>json_loads\<close>: \<^verbatim>\<open>json.loads\<close>;
  \<^item> \<open>format_value\<close>: \<^verbatim>\<open>str(v)\<close> for a value that is not a string;
  \<^item> \<open>str_accessor\<close>: whether pandas grants the \<^verbatim>\<open>.str\<close> accessor on a column. Its
    first argument is the column as the table was built with it (which fixes the
    column's dtype), its second the values the column holds when \<^verbatim>\<open>.str\<close> is asked for;
    pandas raises \<^verbatim>\<open>AttributeError\<close> when it does not take them for text.
\<close>

record 'n env =
  request_cids :: "pystr \<Rightarrow> 'n \<Rightarrow> (exn + bytes) \<times> 'n"
  request_smiles :: "pyval \<Rightarrow> 'n \<Rightarrow> (exn + bytes) \<times> 'n"
  json_loads :: "bytes \<Rightarrow> exn + pyval"
  format_value :: "pyval \<Rightarrow> pystr"
  str_accessor :: "pyval list \<Rightarrow> pyval list \<Rightarrow> bool"

text \<open>
  \<^verbatim>\<open>write_log\<close> prints the message and appends it to the log file, opened with
  \<^verbatim>\<open>encoding='utf-8'\<close>. A Python string may hold a lone surrogate (a code point from
  U+D800 to U+DFFF), which UTF-8 cannot encode: writing it raises
  \<^verbatim>\<open>UnicodeEncodeError\<close> and the file stays as it was. A string enters a message as it
  is where an f-string interpolates it; every other value enters as digits or as its
  \<^verbatim>\<open>repr\<close>, which escapes surrogates, and so do the column labels (a list) and the text
  of an exception. The file system refusing the write (\<^verbatim>\<open>OSError\<close>) is a failure of the
  machine the notebook runs on, not of its input or of the service, and is left out.
\<close>

definition encodable :: "pystr \<Rightarrow> bool" where
  "encodable s = list_all (\<lambda>c. c < 55296 \<or> 57343 < c) s"

fun value_text_ok :: "pyval \<Rightarrow> bool" where
  "value_text_ok (PStr s) = encodable s"
| "value_text_ok v = True"

fun log_text_ok :: "log_event \<Rightarrow> bool" where
  "log_text_ok (LogSearching name) = encodable name"
| "log_text_ok (LogFoundCID v) = value_text_ok v"
| "log_text_ok (LogSuccess v) = value_text_ok v"
| "log_text_ok (LogFailedFor name e) = encodable name"
| "log_text_ok (LogAllFailed name) = encodable name"
| "log_text_ok (LogProcessing i n name) = encodable name"
| "log_text_ok (LogFailedName name) = encodable name"
| "log_text_ok m = True"

definition write_log :: "log_event \<Rightarrow> 'n world \<Rightarrow> (exn + unit) \<times> 'n world" where
  "write_log message w =
     (if log_text_ok message then (Inr (), w\<lparr>log_lines := log_lines w @ [message]\<rparr>)
      else (Inl UnicodeEncodeError, w))"

text \<open>Several calls of \<^verbatim>\<open>write_log\<close> in a row; the first that raises ends them.\<close>

fun write_logs :: "log_event list \<Rightarrow> 'n world \<Rightarrow> (exn + unit) \<times> 'n world" where
  "write_logs [] w = (Inr (), w)"
| "write_logs (message # messages) w =
     (case write_log message w of
        (Inl e, w1) \<Rightarrow> (Inl e, w1)
      | (Inr u, w1) \<Rightarrow> write_logs messages w1)"

definition py_str :: "'n env \<Rightarrow> pyval \<Rightarrow> pystr" where
  "py_str env v = (case v of PStr s \<Rightarrow> s | _ \<Rightarrow> format_value env v)"

section \<open>Cell 3: \<^verbatim>\<open>get_cid_and_smiles\<close>\<close>

definition Success_Original_Name :: pystr where
  "Success_Original_Name = ascii ''Success (Original Name)''"

definition Success_Name_Variant :: pystr where
  "Success_Name_Variant = ascii ''Success (Name Variant)''"

definition Failed :: pystr where
  "Failed = ascii ''Failed''"

text \<open>\<^verbatim>\<open>json.loads(cid_reply)['IdentifierList']['CID'][0]\<close>\<close>

definition cid_of_reply :: "'n env \<Rightarrow> bytes \<Rightarrow> exn + pyval" where
  "cid_of_reply env cid_reply =
     bind_exn (json_loads env cid_reply) (\<lambda>j.
     bind_exn (getitem_key j (ascii ''IdentifierList'')) (\<lambda>l.
     bind_exn (getitem_key l (ascii ''CID'')) getitem_0))"

text \<open>\<^verbatim>\<open>json.loads(smiles_reply)['PropertyTable']['Properties'][0]['SMILES']\<close>\<close>

definition smiles_of_reply :: "'n env \<Rightarrow> bytes \<Rightarrow> exn + pyval" where
  "smiles_of_reply env smiles_reply =
     bind_exn (json_loads env smiles_reply) (\<lambda>j.
     bind_exn (getitem_key j (ascii ''PropertyTable'')) (\<lambda>t.
     bind_exn (getitem_key t (ascii ''Properties'')) (\<lambda>ps.
     bind_exn (getitem_0 ps) (\<lambda>p. getitem_key p (ascii ''SMILES'')))))"

text \<open>
  The body of the \<^verbatim>\<open>try\<close> for one candidate (lines 153 to 175). It ends in one of three
  ways: the function returns (\<open>Return\<close>), the loop goes on to the next candidate
  (\<open>Next\<close>: the \<^verbatim>\<open>continue\<close> after an empty name reply, or falling out of the
  \<^verbatim>\<open>if\<close> after an empty SMILES reply), or an exception is raised (\<open>Inl\<close>).
\<close>

datatype attempt = Return "pyval \<times> pyval \<times> pystr" | Next

text \<open>Step 2 (lines 165 to 175), once \<^verbatim>\<open>cid_result\<close> is known.\<close>

definition try_smiles ::
  "'n env \<Rightarrow> nat \<Rightarrow> pyval \<Rightarrow> 'n world \<Rightarrow> (exn + attempt) \<times> 'n world" where
  "try_smiles env i cid_result w =
     (case request_smiles env cid_result (net w) of
        (Inl e, n2) \<Rightarrow> (Inl e, w\<lparr>net := n2\<rparr>)
      | (Inr smiles_reply, n2) \<Rightarrow>
          (if smiles_reply \<noteq> [] then
             (case smiles_of_reply env smiles_reply of
                Inl e \<Rightarrow> (Inl e, w\<lparr>net := n2\<rparr>)
              | Inr smiles_result \<Rightarrow>
                  (case write_log (LogSuccess cid_result) (w\<lparr>net := n2\<rparr>) of
                     (Inl e, w4) \<Rightarrow> (Inl e, w4)
                   | (Inr u, w4) \<Rightarrow>
                       (Inr (Return (cid_result, smiles_result,
                               if i = 0 then Success_Original_Name else Success_Name_Variant)),
                        w4)))
           else (Inr Next, w\<lparr>net := n2\<rparr>)))"

text \<open>Step 1 (lines 153 to 163), followed by step 2.\<close>

definition try_body ::
  "'n env \<Rightarrow> nat \<Rightarrow> pystr \<Rightarrow> 'n world \<Rightarrow> (exn + attempt) \<times> 'n world" where
  "try_body env i name_attempt w =
     (case request_cids env name_attempt (net w) of
        (Inl e, n1) \<Rightarrow> (Inl e, w\<lparr>net := n1\<rparr>)
      | (Inr cid_reply, n1) \<Rightarrow>
          (if cid_reply = [] then (Inr Next, w\<lparr>net := n1\<rparr>)
           else
             (case cid_of_reply env cid_reply of
                Inl e \<Rightarrow> (Inl e, w\<lparr>net := n1\<rparr>)
              | Inr cid_result \<Rightarrow>
                  (case write_log (LogFoundCID cid_result) (w\<lparr>net := n1\<rparr>) of
                     (Inl e, w2) \<Rightarrow> (Inl e, w2)
                   | (Inr u, w2) \<Rightarrow> try_smiles env i cid_result w2))))"

text \<open>
  The \<^verbatim>\<open>for\<close> loop over \<^verbatim>\<open>enumerate(names_to_try)\<close>. The first \<^verbatim>\<open>write_log\<close> (line
  150) stands before the \<^verbatim>\<open>try\<close>, so what it raises leaves the function; so does what
  the \<^verbatim>\<open>write_log\<close> of the handler \<^verbatim>\<open>except Exception as e: write_log(...); continue\<close>
  raises. \<open>Inr None\<close> is the loop running out of candidates.
\<close>

fun for_names ::
  "'n env \<Rightarrow> (nat \<times> pystr) list \<Rightarrow> 'n world \<Rightarrow> (exn + (pyval \<times> pyval \<times> pystr) option) \<times> 'n world"
  where
  "for_names env [] w = (Inr None, w)"
| "for_names env ((i, name_attempt) # rest) w =
     (case write_log (LogSearching name_attempt) w of
        (Inl e, w0) \<Rightarrow> (Inl e, w0)
      | (Inr u, w0) \<Rightarrow>
          (case try_body env i name_attempt w0 of
             (Inr (Return r), w1) \<Rightarrow> (Inr (Some r), w1)
           | (Inr Next, w1) \<Rightarrow> for_names env rest w1
           | (Inl e, w1) \<Rightarrow>
               (if is_Exception e then
                  (case write_log (LogFailedFor name_attempt e) w1 of
                     (Inl e', w2) \<Rightarrow> (Inl e', w2)
                   | (Inr u', w2) \<Rightarrow> for_names env rest w2)
                else (Inl e, w1))))"

text \<open>The function: the loop, and after it line 181 and \<^verbatim>\<open>return None, None, 'Failed'\<close>.\<close>

definition get_cid_and_smiles ::
  "'n env \<Rightarrow> pystr \<Rightarrow> 'n world \<Rightarrow> (exn + (pyval \<times> pyval \<times> pystr)) \<times> 'n world" where
  "get_cid_and_smiles env compound_name w =
     (case for_names env (enumerate 0 (names_to_try compound_name)) w of
        (Inl e, w1) \<Rightarrow> (Inl e, w1)
      | (Inr (Some r), w1) \<Rightarrow> (Inr r, w1)
      | (Inr None, w1) \<Rightarrow>
          (case write_log (LogAllFailed (strip compound_name)) w1 of
             (Inl e, w2) \<Rightarrow> (Inl e, w2)
           | (Inr u, w2) \<Rightarrow> (Inr (PNone, PNone, Failed), w2)))"

section \<open>Cell 2: reading and validating the input\<close>

text \<open>
  A \<^verbatim>\<open>DataFrame\<close> as \<^verbatim>\<open>iterrows\<close> yields it: the column labels, and for each row the
  cell under each label. \<^verbatim>\<open>len(df)\<close> is the number of rows.
\<close>

record dataframe =
  columns :: "pystr list"
  rows :: "(pystr \<Rightarrow> pyval) list"

definition empty_DataFrame :: dataframe where
  "empty_DataFrame = \<lparr>columns = [], rows = []\<rparr>"

definition Name :: pystr where "Name = ascii ''Name''"
definition PubChem_CID :: pystr where "PubChem_CID = ascii ''PubChem_CID''"
definition Smiles :: pystr where "Smiles = ascii ''Smiles''"
definition Status :: pystr where "Status = ascii ''Status''"

text \<open>\<^verbatim>\<open>df_input['Name'].duplicated().sum()\<close>: the rows whose name occurred before.\<close>

definition duplicated_sum :: "pyval list \<Rightarrow> nat" where
  "duplicated_sum names = length names - length (remdups names)"

text \<open>The two handlers of Cell 2; an exception that is no \<^verbatim>\<open>Exception\<close> leaves the cell.\<close>

definition cell2_except :: "exn \<Rightarrow> 'n world \<Rightarrow> (exn + dataframe) \<times> 'n world" where
  "cell2_except e w =
     (if e = FileNotFoundError then
        (case write_log LogCriticalNotFound w of
           (Inl e', w1) \<Rightarrow> (Inl e', w1)
         | (Inr u, w1) \<Rightarrow> (Inr empty_DataFrame, w1))
      else if is_Exception e then
        (case write_log (LogCriticalReadFailed e) w of
           (Inl e', w1) \<Rightarrow> (Inl e', w1)
         | (Inr u, w1) \<Rightarrow> (Inr empty_DataFrame, w1))
      else (Inl e, w))"

text \<open>
  Cell 2. \<open>read_csv\<close> is what \<^verbatim>\<open>pd.read_csv('compound_data.csv', ...)\<close> does: the table,
  or the exception it raises. The result is the variable \<^verbatim>\<open>df_input\<close>. Everything up
  to the duplicate warning stands in the \<^verbatim>\<open>try\<close>.
\<close>

definition cell2 :: "exn + dataframe \<Rightarrow> 'n world \<Rightarrow> (exn + dataframe) \<times> 'n world" where
  "cell2 read_csv w =
     (case read_csv of
        Inl e \<Rightarrow> cell2_except e w
      | Inr df_input \<Rightarrow>
          (case write_logs [LogReadOk, LogTotalCompounds (length (rows df_input)),
                            LogColumns (columns df_input)] w of
             (Inl e, w1) \<Rightarrow> cell2_except e w1
           | (Inr u, w1) \<Rightarrow>
               (if Name \<notin> set (columns df_input) then cell2_except ValueError w1
                else
                  (let duplicates = duplicated_sum (map (\<lambda>r. r Name) (rows df_input)) in
                   if duplicates > 0 then
                     (case write_log (LogDuplicates duplicates) w1 of
                        (Inl e, w2) \<Rightarrow> cell2_except e w2
                      | (Inr u', w2) \<Rightarrow> (Inr df_input, w2))
                   else (Inr df_input, w1)))))"

section \<open>Cell 4: the processing loop\<close>

text \<open>The variables Cell 4 sets in its \<^verbatim>\<open>else\<close> branch.\<close>

record batch =
  success_count :: nat
  failed_count :: nat
  failed_compounds :: "pystr list"
  results :: "row list"

text \<open>\<^verbatim>\<open>row[col]\<close> on a row of the input table.\<close>

definition row_get :: "pystr list \<Rightarrow> (pystr \<Rightarrow> pyval) \<Rightarrow> pystr \<Rightarrow> exn + pyval" where
  "row_get cols r col = (if col \<in> set cols then Inr (r col) else Inl KeyError)"

text \<open>
  Lines 236 to 246: the dict with the four resolution fields, then
  \<^verbatim>\<open>for col in df_input.columns: if col != 'Name': result_row[col] = row[col]\<close>.
  Assigning to a key that is in the dict replaces its value in place.
\<close>

definition result_row ::
  "pystr list \<Rightarrow> (pystr \<Rightarrow> pyval) \<Rightarrow> pystr \<Rightarrow> pyval \<Rightarrow> pyval \<Rightarrow> pystr \<Rightarrow> row" where
  "result_row cols r compound_name cid smiles status =
     foldl (\<lambda>d col. if col \<noteq> Name then AList.update col (r col) d else d)
       [(Name, PStr compound_name), (PubChem_CID, cid), (Smiles, smiles), (Status, PStr status)]
       cols"

text \<open>
  The loop \<^verbatim>\<open>for index, row in df_input.iterrows()\<close> (lines 221 to 251); \<open>n\<close> is
  \<^verbatim>\<open>len(df_input)\<close>. The pause \<^verbatim>\<open>time.sleep(0.5)\<close> has no effect on the values.
\<close>

fun process_rows ::
  "'n env \<Rightarrow> pystr list \<Rightarrow> nat \<Rightarrow> (nat \<times> (pystr \<Rightarrow> pyval)) list \<Rightarrow> batch \<Rightarrow> 'n world
     \<Rightarrow> (exn + batch) \<times> 'n world" where
  "process_rows env cols n [] b w = (Inr b, w)"
| "process_rows env cols n ((index, r) # rest) b w =
     (case row_get cols r Name of
        Inl e \<Rightarrow> (Inl e, w)
      | Inr v \<Rightarrow>
          (let compound_name = strip (py_str env v) in
           case write_log (LogProcessing (index + 1) n compound_name) w of
             (Inl e, w0) \<Rightarrow> (Inl e, w0)
           | (Inr u, w0) \<Rightarrow>
               (case get_cid_and_smiles env compound_name w0 of
                  (Inl e, w1) \<Rightarrow> (Inl e, w1)
                | (Inr (cid, smiles, status), w1) \<Rightarrow>
                    (let b1 = (if str_contains (ascii ''Success'') status
                               then b\<lparr>success_count := success_count b + 1\<rparr>
                               else b\<lparr>failed_count := failed_count b + 1,
                                      failed_compounds := failed_compounds b @ [compound_name]\<rparr>)
                     in process_rows env cols n rest
                          (b1\<lparr>results := results b1 @
                                [result_row cols r compound_name cid smiles status]\<rparr>)
                          w1))))"

text \<open>The lines of the summary (lines 260 to 273), in the order they are written.\<close>

definition summary_lines :: "nat \<Rightarrow> batch \<Rightarrow> log_event list" where
  "summary_lines n b =
     [LogRule, LogCompleted, LogTotalProcessed n, LogSuccessful (success_count b),
      LogFailedCount (failed_count b), LogSuccessRate (success_count b) n] @
     (if failed_compounds b \<noteq> []
      then LogFailedHeader # map LogFailedName (failed_compounds b) else []) @
     [LogResultsSaved, LogRule]"

text \<open>
  Cell 4. Its result is \<open>None\<close> when the guard \<^verbatim>\<open>len(df_input) == 0\<close> holds (no variable
  is set), and otherwise the variables of the \<^verbatim>\<open>else\<close> branch; \<^verbatim>\<open>df_results\<close> is
  \<open>results\<close> as a table. \<^verbatim>\<open>to_csv\<close> is taken to write the file.
\<close>

definition cell4 :: "'n env \<Rightarrow> dataframe \<Rightarrow> 'n world \<Rightarrow> (exn + batch option) \<times> 'n world" where
  "cell4 env df_input w =
     (let n = length (rows df_input) in
      if n = 0 then
        (case write_log LogNoInput w of
           (Inl e, w1) \<Rightarrow> (Inl e, w1)
         | (Inr u, w1) \<Rightarrow> (Inr None, w1))
      else
        (case write_log (LogStarting n) w of
           (Inl e, w0) \<Rightarrow> (Inl e, w0)
         | (Inr u, w0) \<Rightarrow>
             (case process_rows env (columns df_input) n (enumerate 0 (rows df_input))
                     \<lparr>success_count = 0, failed_count = 0, failed_compounds = [], results = []\<rparr>
                     w0 of
                (Inl e, w1) \<Rightarrow> (Inl e, w1)
              | (Inr b, w1) \<Rightarrow>
                  (case write_logs (summary_lines n b) (w1\<lparr>results_csv := Some (results b)\<rparr>) of
                     (Inl e, w2) \<Rightarrow> (Inl e, w2)
                   | (Inr u', w2) \<Rightarrow> (Inr (Some b), w2)))))"

section \<open>Cell 5: quality control\<close>

text \<open>
  A column of a table built from row dicts: a key missing from a row reads as NaN, and a
  label that no row has raises \<^verbatim>\<open>KeyError\<close>.
\<close>

definition isna :: "pyval \<Rightarrow> bool" where
  "isna v \<longleftrightarrow> v = PNone \<or> v = PFloat NaN"

definition has_column :: "row list \<Rightarrow> pystr \<Rightarrow> bool" where
  "has_column df col = list_ex (\<lambda>r. col \<in> set (map fst r)) df"

definition cell_of :: "row \<Rightarrow> pystr \<Rightarrow> pyval" where
  "cell_of r col = (case map_of r col of Some v \<Rightarrow> v | None \<Rightarrow> PFloat NaN)"

text \<open>
  The three element-wise tests of Cell 5, for a column on which pandas grants the
  \<^verbatim>\<open>.str\<close> accessor (its methods give NaN on a value that is not a string):
  \<^item> \<^verbatim>\<open>.str.contains('Success', na=False)\<close>;
  \<^item> the complement of what \<^verbatim>\<open>dropna(subset=['Smiles'])\<close> drops;
  \<^item> \<^verbatim>\<open>.str.strip() != ''\<close>.
\<close>

definition success_mask :: "pyval \<Rightarrow> bool" where
  "success_mask v = (case v of PStr s \<Rightarrow> str_contains (ascii ''Success'') s | _ \<Rightarrow> False)"

definition strip_not_empty :: "pyval \<Rightarrow> bool" where
  "strip_not_empty v = (case v of PStr s \<Rightarrow> strip s \<noteq> [] | _ \<Rightarrow> True)"

definition column_of :: "row list \<Rightarrow> pystr \<Rightarrow> pyval list" where
  "column_of df col = map (\<lambda>r. cell_of r col) df"

text \<open>
  Lines 302 to 315: \<^verbatim>\<open>initial_count\<close> and the final \<^verbatim>\<open>df_clean\<close>. The accessor is asked
  for twice: on \<^verbatim>\<open>df_results['Status']\<close> (line 302), and on \<^verbatim>\<open>df_clean['Smiles']\<close> after
  the mask and \<^verbatim>\<open>dropna\<close> (line 312), a column that keeps the dtype it was built with
  in \<^verbatim>\<open>df_results\<close>.
\<close>

definition quality_control :: "'n env \<Rightarrow> row list \<Rightarrow> exn + (nat \<times> row list)" where
  "quality_control env df_results =
     (if \<not> has_column df_results Status then Inl KeyError
      else if \<not> str_accessor env (column_of df_results Status) (column_of df_results Status)
      then Inl AttributeError
      else
        (let df_clean0 = filter (\<lambda>r. success_mask (cell_of r Status)) df_results;
             initial_count = length df_clean0
         in if \<not> has_column df_results Smiles then Inl KeyError
            else
              (let df_clean1 = filter (\<lambda>r. \<not> isna (cell_of r Smiles)) df_clean0
               in if \<not> str_accessor env (column_of df_results Smiles) (column_of df_clean1 Smiles)
                  then Inl AttributeError
                  else Inr (initial_count,
                            filter (\<lambda>r. strip_not_empty (cell_of r Smiles)) df_clean1))))"

text \<open>The lines Cell 5 writes after the quality control, before and after saving.\<close>

definition qc_lines :: "nat \<Rightarrow> nat \<Rightarrow> log_event list" where
  "qc_lines initial_count final_count =
     [LogQCResults, LogInitialSuccessful initial_count,
      LogRemoved (initial_count - final_count), LogFinalClean final_count]"

definition final_lines :: "dataframe \<Rightarrow> batch \<Rightarrow> nat \<Rightarrow> log_event list" where
  "final_lines df_input b final_count =
     [LogCleanSaved, LogReady, LogFinalStatistics,
      LogOriginalCompounds (length (rows df_input)),
      LogSuccessfullyProcessed (success_count b),
      LogReadyForSwissTarget final_count,
      LogOverallRate final_count (length (rows df_input))]"

text \<open>
  Cell 5. \<open>vars\<close> is the result of Cell 4: \<open>None\<close> when \<^verbatim>\<open>df_results\<close> is not among the
  variables. The result is \<^verbatim>\<open>df_clean\<close>, if the cell sets it. \<^verbatim>\<open>to_csv\<close> is taken to
  write the file.
\<close>

definition cell5_no_results :: "'n world \<Rightarrow> (exn + row list option) \<times> 'n world" where
  "cell5_no_results w =
     (case write_log LogNoResults w of
        (Inl e, w1) \<Rightarrow> (Inl e, w1)
      | (Inr u, w1) \<Rightarrow> (Inr None, w1))"

definition cell5 ::
  "'n env \<Rightarrow> dataframe \<Rightarrow> batch option \<Rightarrow> 'n world \<Rightarrow> (exn + row list option) \<times> 'n world"
  where
  "cell5 env df_input vars w =
     (case vars of
        None \<Rightarrow> cell5_no_results w
      | Some b \<Rightarrow>
          (if length (results b) > 0 then
             (case write_log LogQCPhase w of
                (Inl e, w1) \<Rightarrow> (Inl e, w1)
              | (Inr u, w1) \<Rightarrow>
                  (case quality_control env (results b) of
                     Inl e \<Rightarrow> (Inl e, w1)
                   | Inr (initial_count, df_clean) \<Rightarrow>
                       (case write_logs (qc_lines initial_count (length df_clean)) w1 of
                          (Inl e, w2) \<Rightarrow> (Inl e, w2)
                        | (Inr u', w2) \<Rightarrow>
                            (case write_logs (final_lines df_input b (length df_clean))
                                    (w2\<lparr>clean_csv := Some df_clean\<rparr>) of
                               (Inl e, w3) \<Rightarrow> (Inl e, w3)
                             | (Inr u'', w3) \<Rightarrow> (Inr (Some df_clean), w3)))))
           else cell5_no_results w))"

section \<open>The notebook, run from top to bottom\<close>

text \<open>
  Cells 2, 4 and 5 in order on a fresh kernel; an exception that leaves a cell stops the
  run. The result holds \<^verbatim>\<open>df_input\<close>, the variables of Cell 4 and \<^verbatim>\<open>df_clean\<close>.
\<close>

definition run_all ::
  "'n env \<Rightarrow> exn + dataframe \<Rightarrow> 'n world
     \<Rightarrow> (exn + (dataframe \<times> batch option \<times> row list option)) \<times> 'n world" where
  "run_all env read_csv w =
     (case cell2 read_csv w of
        (Inl e, w1) \<Rightarrow> (Inl e, w1)
      | (Inr df_input, w1) \<Rightarrow>
          (case cell4 env df_input w1 of
             (Inl e, w2) \<Rightarrow> (Inl e, w2)
           | (Inr vars, w2) \<Rightarrow>
               (case cell5 env df_input vars w2 of
                  (Inl e, w3) \<Rightarrow> (Inl e, w3)
                | (Inr df_clean, w3) \<Rightarrow> (Inr (df_input, vars, df_clean), w3))))"

section \<open>Assumptions on the external service\<close>

text \<open>
  The service fails only with exceptions that derive from \<^verbatim>\<open>Exception\<close> (a transport
  error, a timeout, a reply that does not parse); an interrupt of the interpreter is not
  a behaviour of the service.
\<close>

definition raises_only_Exception :: "'n env \<Rightarrow> bool" where
  "raises_only_Exception env \<longleftrightarrow>
     (\<forall>x n e. fst (request_cids env x n) = Inl e \<longrightarrow> is_Exception e) \<and>
     (\<forall>c n e. fst (request_smiles env c n) = Inl e \<longrightarrow> is_Exception e) \<and>
     (\<forall>b e. json_loads env b = Inl e \<longrightarrow> is_Exception e)"

text \<open>A stable service: what it replies does not depend on its state.\<close>

definition stable_service :: "'n env \<Rightarrow> bool" where
  "stable_service env \<longleftrightarrow>
     (\<forall>x n n'. fst (request_cids env x n) = fst (request_cids env x n')) \<and>
     (\<forall>c n n'. fst (request_smiles env c n) = fst (request_smiles env c n'))"

text \<open>
  No reply of the service decodes to JSON \<^verbatim>\<open>null\<close> as its first identifier or as its
  SMILES: this is about the bodies the two requests return, in any state of the service
  and for any argument, not about what \<^verbatim>\<open>json.loads\<close> makes of other texts.
\<close>

definition no_null_reply :: "'n env \<Rightarrow> bool" where
  "no_null_reply env \<longleftrightarrow>
     (\<forall>x n n' b. request_cids env x n = (Inr b, n') \<longrightarrow> cid_of_reply env b \<noteq> Inr PNone) \<and>
     (\<forall>c m m' b. request_smiles env c m = (Inr b, m') \<longrightarrow> smiles_of_reply env b \<noteq> Inr PNone)"

text \<open>The names the log records as searched, in order.\<close>

fun searched :: "log_event list \<Rightarrow> pystr list" where
  "searched [] = []"
| "searched (LogSearching name # l) = name # searched l"
| "searched (m # l) = searched l"

text \<open>
  What a successful attempt on one candidate rests on: the name request returned a
  non-empty body whose first identifier decodes to \<open>cid\<close>, and the request for \<open>cid\<close>
  returned a non-empty body whose SMILES property decodes to \<open>smiles\<close>.
\<close>

definition resolves :: "'n env \<Rightarrow> pystr \<Rightarrow> pyval \<Rightarrow> pyval \<Rightarrow> bool" where
  "resolves env name_attempt cid smiles \<longleftrightarrow>
     (\<exists>n n' cid_reply. request_cids env name_attempt n = (Inr cid_reply, n') \<and>
        cid_reply \<noteq> [] \<and> cid_of_reply env cid_reply = Inr cid) \<and>
     (\<exists>m m' smiles_reply. request_smiles env cid m = (Inr smiles_reply, m') \<and>
        smiles_reply \<noteq> [] \<and> smiles_of_reply env smiles_reply = Inr smiles)"



section \<open>Test doubles for the external service\<close>

text \<open>
  A mocked service that knows one compound under its spelled-out name only. Each request
  advances a counter. The reply bodies stand for JSON texts, and \<open>json_loads\<close> of the
  mock decodes them; the SMILES value of the second reply is a parameter. \<open>null_body\<close>
  is a text with a \<^verbatim>\<open>null\<close> identifier that the mocked service never sends. The mocked
  pandas grants the \<^verbatim>\<open>.str\<close> accessor on a column built from strings and \<^verbatim>\<open>None\<close> only.
\<close>

definition cid_body :: bytes where "cid_body = ''cid-reply''"
definition smiles_body :: bytes where "smiles_body = ''smiles-reply''"
definition null_body :: bytes where "null_body = ''null-reply''"

fun text_or_None :: "pyval \<Rightarrow> bool" where
  "text_or_None (PStr s) = True"
| "text_or_None PNone = True"
| "text_or_None v = False"

definition text_columns_only :: "pyval list \<Rightarrow> pyval list \<Rightarrow> bool" where
  "text_columns_only built held = list_all text_or_None built"

definition mock_env :: "pyval \<Rightarrow> nat env" where
  "mock_env smiles_value =
     \<lparr>request_cids = (\<lambda>x n.
         (if x = ascii ''alpha-Tocopherol'' then Inr cid_body else Inl (HTTPError 404), Suc n)),
      request_smiles = (\<lambda>c n.
         (if c = PInt 14985 then Inr smiles_body else Inl (HTTPError 404), Suc n)),
      json_loads = (\<lambda>b.
         if b = cid_body
         then Inr (PDict [(ascii ''IdentifierList'', PDict [(ascii ''CID'', PList [PInt 14985])])])
         else if b = smiles_body
         then Inr (PDict [(ascii ''PropertyTable'',
                 PDict [(ascii ''Properties'', PList [PDict [(ascii ''SMILES'', smiles_value)]])])])
         else if b = null_body
         then Inr (PDict [(ascii ''IdentifierList'', PDict [(ascii ''CID'', PList [PNone])])])
         else Inl JSONDecodeError),
      format_value = (\<lambda>v. ascii ''nan''),
      str_accessor = text_columns_only\<rparr>"

text \<open>A service on which every request times out.\<close>

definition failing_env :: "nat env" where
  "failing_env =
     \<lparr>request_cids = (\<lambda>x n. (Inl TimeoutError, Suc n)),
      request_smiles = (\<lambda>c n. (Inl TimeoutError, Suc n)),
      json_loads = (\<lambda>b. Inl JSONDecodeError),
      format_value = (\<lambda>v. ascii ''nan''),
      str_accessor = text_columns_only\<rparr>"

definition tocopherol_smiles :: pystr where
  "tocopherol_smiles = ascii ''Cc1c(C)c2OC(C)(C)CCc2c(C)c1O''"

definition greek_Tocopherol :: pystr where
  "greek_Tocopherol = greek_alpha # ascii ''-Tocopherol''"


definition surrogate_name :: pystr where
  "surrogate_name = [55296]"

definition fresh_world :: "nat world" where
  "fresh_world = \<lparr>log_lines = [], net = 0, results_csv = None, clean_csv = None\<rparr>"

section \<open>Notions for stating the claims about the batch\<close>


text \<open>The log lines that report a fatal input error (the two \<^verbatim>\<open>CRITICAL\<close> messages).\<close>

fun is_critical :: "log_event \<Rightarrow> bool" where
  "is_critical LogCriticalNotFound = True"
| "is_critical (LogCriticalReadFailed e) = True"
| "is_critical m = False"

text \<open>Input tables for the examples; a row is given by its cells, NaN where it has none.\<close>

definition row_of :: "(pystr \<times> pyval) list \<Rightarrow> pystr \<Rightarrow> pyval" where
  "row_of cells col = (case map_of cells col of Some v \<Rightarrow> v | None \<Rightarrow> PFloat NaN)"





definition header_only_table :: dataframe where
  "header_only_table = \<lparr>columns = [Name, ascii ''Formula''], rows = []\<rparr>"

definition nameless_table :: dataframe where
  "nameless_table =
     \<lparr>columns = [ascii ''Compound''],
      rows = [row_of [(ascii ''Compound'', PStr greek_Tocopherol)]]\<rparr>"



section \<open>Properties of the candidate names\<close>

lemma ascii_alpha: "ascii ''alpha'' = [97, 108, 112, 104, 97]"
  by (simp add: ascii_def)

lemma ascii_beta: "ascii ''beta'' = [98, 101, 116, 97]"
  by (simp add: ascii_def)

lemma ascii_gamma: "ascii ''gamma'' = [103, 97, 109, 109, 97]"
  by (simp add: ascii_def)

lemma str_replace_append:
  "str_replace (s @ t) old new = str_replace s old new @ str_replace t old new"
  by (induction s) auto

lemma str_replace_absent: "old \<notin> set s \<Longrightarrow> str_replace s old new = s"
  by (induction s) auto

lemma alpha_name_concat: "alpha_name s = concat (map spell_greek s)"
proof (induction s)
  case Nil
  show ?case by (simp add: alpha_name_def)
next
  case (Cons c s)
  have step: "alpha_name (c # s) = spell_greek c @ alpha_name s"
    by (simp add: alpha_name_def spell_greek_def str_replace_append ascii_alpha ascii_beta
        ascii_gamma greek_alpha_def greek_beta_def greek_gamma_def)
  show ?case using Cons.IH by (simp add: step)
qed




lemma dict_fromkeys_pair: "dict_fromkeys [a, b] = (if b = a then [a] else [a, b])"
  by (simp add: dict_fromkeys_def)

lemma names_to_try_eq:
  "names_to_try n =
     (if alpha_name (strip n) = strip n then [strip n] else [strip n, alpha_name (strip n)])"
  by (simp add: names_to_try_def dict_fromkeys_pair Let_def)

subsection \<open>What trimming is\<close>

lemma rev_dropWhile_split:
  "xs = rev (dropWhile P (rev xs)) @ rev (takeWhile P (rev xs))"
  by (metis rev_append rev_rev_ident takeWhile_dropWhile_id)

lemma strip_decomposition:
  "\<exists>pre post. n = pre @ strip n @ post \<and> list_all isspace pre \<and> list_all isspace post"
proof -
  let ?m = "dropWhile isspace n"
  have n: "n = takeWhile isspace n @ ?m" by simp
  have m: "?m = strip n @ rev (takeWhile isspace (rev ?m))"
    unfolding strip_def by (rule rev_dropWhile_split)
  have "n = takeWhile isspace n @ strip n @ rev (takeWhile isspace (rev ?m))"
    using n m by metis
  moreover have "list_all isspace (takeWhile isspace n)"
    by (simp add: list_all_iff) (meson set_takeWhileD)
  moreover have "list_all isspace (rev (takeWhile isspace (rev ?m)))"
    by (simp add: list_all_iff) (meson set_takeWhileD)
  ultimately show ?thesis by blast
qed




lemma greek_Tocopherol_neq: "greek_Tocopherol \<noteq> ascii ''alpha-Tocopherol''"
  by (simp add: greek_Tocopherol_def ascii_def greek_alpha_def)



section \<open>Properties of the resolver\<close>

subsection \<open>Writing the log\<close>

lemma write_log_ok:
  "log_text_ok m \<Longrightarrow> write_log m w = (Inr (), w\<lparr>log_lines := log_lines w @ [m]\<rparr>)"
  by (simp add: write_log_def)

lemma write_log_bad: "\<not> log_text_ok m \<Longrightarrow> write_log m w = (Inl UnicodeEncodeError, w)"
  by (simp add: write_log_def)

lemma write_log_Inl: "write_log m w = (Inl e, w') \<Longrightarrow> e = UnicodeEncodeError \<and> w' = w"
  by (auto simp: write_log_def split: if_splits)

lemma write_log_Inr:
  "write_log m w = (Inr u, w') \<Longrightarrow> w' = w\<lparr>log_lines := log_lines w @ [m]\<rparr> \<and> log_text_ok m"
  by (auto simp: write_log_def split: if_splits)


lemma encodable_append: "encodable (s @ t) \<longleftrightarrow> encodable s \<and> encodable t"
  by (simp add: encodable_def)

lemma encodable_strip: "encodable n \<Longrightarrow> encodable (strip n)"
proof -
  obtain pre post where "n = pre @ strip n @ post"
    using strip_decomposition [of n] by blast
  then have "encodable n = encodable (pre @ strip n @ post)" by simp
  then show "encodable n \<Longrightarrow> encodable (strip n)" by (simp add: encodable_append)
qed

lemma encodable_spell_greek: "encodable [c] \<Longrightarrow> encodable (spell_greek c)"
  by (simp add: spell_greek_def encodable_def ascii_alpha ascii_beta ascii_gamma)

lemma encodable_alpha_name: "encodable s \<Longrightarrow> encodable (alpha_name s)"
proof (induction s)
  case Nil
  then show ?case by (simp add: alpha_name_concat)
next
  case (Cons c s)
  have "encodable [c]" "encodable s" using Cons.prems by (simp_all add: encodable_def)
  then show ?case
    using Cons.IH encodable_spell_greek [of c] by (simp add: alpha_name_concat encodable_append)
qed

lemma encodable_names_to_try:
  "encodable n \<Longrightarrow> list_all encodable (names_to_try n)"
  by (simp add: names_to_try_eq encodable_strip encodable_alpha_name)

subsection \<open>The loop over the candidates, unfolded\<close>

lemma for_names_Cons_bad:
  "\<not> encodable c \<Longrightarrow> for_names env ((i, c) # rest) w = (Inl UnicodeEncodeError, w)"
  by (simp add: write_log_def)

lemma for_names_Cons_Return:
  assumes "encodable c"
    and "try_body env i c (w\<lparr>log_lines := log_lines w @ [LogSearching c]\<rparr>) = (Inr (Return r), w1)"
  shows "for_names env ((i, c) # rest) w = (Inr (Some r), w1)"
  using assms by (simp add: write_log_def)

lemma for_names_Cons_Next:
  assumes "encodable c"
    and "try_body env i c (w\<lparr>log_lines := log_lines w @ [LogSearching c]\<rparr>) = (Inr Next, w1)"
  shows "for_names env ((i, c) # rest) w = for_names env rest w1"
  using assms by (simp add: write_log_def)

lemma for_names_Cons_caught:
  assumes "encodable c"
    and "try_body env i c (w\<lparr>log_lines := log_lines w @ [LogSearching c]\<rparr>) = (Inl e, w1)"
    and "is_Exception e"
  shows "for_names env ((i, c) # rest) w =
           for_names env rest (w1\<lparr>log_lines := log_lines w1 @ [LogFailedFor c e]\<rparr>)"
  using assms by (simp add: write_log_def)

lemma for_names_Cons_uncaught:
  assumes "encodable c"
    and "try_body env i c (w\<lparr>log_lines := log_lines w @ [LogSearching c]\<rparr>) = (Inl e, w1)"
    and "\<not> is_Exception e"
  shows "for_names env ((i, c) # rest) w = (Inl e, w1)"
  using assms by (simp add: write_log_def)

declare for_names.simps(2) [simp del]

subsection \<open>What the resolver raises\<close>

lemma getitem_key_Exception: "getitem_key v k = Inl e \<Longrightarrow> is_Exception e"
  by (cases v) (auto split: option.splits)

lemma getitem_0_Exception: "getitem_0 v = Inl e \<Longrightarrow> is_Exception e"
  by (induction v rule: getitem_0.induct) auto

lemma bind_exn_Inl:
  "bind_exn r f = Inl e \<Longrightarrow> r = Inl e \<or> (\<exists>v. r = Inr v \<and> f v = Inl e)"
  by (cases r) (auto simp: bind_exn_def)

lemma cid_of_reply_Exception:
  "raises_only_Exception env \<Longrightarrow> cid_of_reply env b = Inl e \<Longrightarrow> is_Exception e"
  unfolding cid_of_reply_def raises_only_Exception_def
  by (blast dest: bind_exn_Inl getitem_key_Exception getitem_0_Exception)

lemma smiles_of_reply_Exception:
  "raises_only_Exception env \<Longrightarrow> smiles_of_reply env b = Inl e \<Longrightarrow> is_Exception e"
  unfolding smiles_of_reply_def raises_only_Exception_def
  by (blast dest: bind_exn_Inl getitem_key_Exception getitem_0_Exception)

lemma try_smiles_Exception:
  assumes "raises_only_Exception env" and "try_smiles env i cid w = (Inl e, w')"
  shows "is_Exception e"
proof (cases "request_smiles env cid (net w)")
  case (Pair r n2)
  show ?thesis
  proof (cases r)
    case (Inl e')
    then have "fst (request_smiles env cid (net w)) = Inl e'" using Pair by simp
    moreover have "e' = e" using assms(2) Pair Inl by (simp add: try_smiles_def)
    ultimately show ?thesis using assms(1) by (auto simp: raises_only_Exception_def)
  next
    case (Inr smiles_reply)
    then show ?thesis
      using assms Pair smiles_of_reply_Exception [of env smiles_reply e]
      by (auto simp: try_smiles_def write_log_def split: if_splits sum.splits)
  qed
qed

lemma try_body_Exception:
  assumes "raises_only_Exception env" and "try_body env i c w = (Inl e, w')"
  shows "is_Exception e"
proof (cases "request_cids env c (net w)")
  case (Pair r n1)
  show ?thesis
  proof (cases r)
    case (Inl e')
    then have "fst (request_cids env c (net w)) = Inl e'" using Pair by simp
    moreover have "e' = e" using assms(2) Pair Inl by (simp add: try_body_def)
    ultimately show ?thesis using assms(1) by (auto simp: raises_only_Exception_def)
  next
    case (Inr cid_reply)
    then show ?thesis
      using assms Pair cid_of_reply_Exception [of env cid_reply e]
      by (auto simp: try_body_def write_log_def split: if_splits sum.splits
          dest: try_smiles_Exception)
  qed
qed

lemma for_names_returns:
  assumes "raises_only_Exception env"
  shows "list_all encodable (map snd xs) \<Longrightarrow> \<exists>r w'. for_names env xs w = (Inr r, w')"
proof (induction xs arbitrary: w)
  case Nil
  show ?case by simp
next
  case (Cons x xs)
  obtain i c where x: "x = (i, c)" by (cases x)
  have c: "encodable c" and rest: "list_all encodable (map snd xs)"
    using Cons.prems x by simp_all
  obtain t w1 where
    t: "try_body env i c (w\<lparr>log_lines := log_lines w @ [LogSearching c]\<rparr>) = (t, w1)"
    by (cases "try_body env i c (w\<lparr>log_lines := log_lines w @ [LogSearching c]\<rparr>)")
  show ?case
  proof (cases t)
    case (Inl e)
    then have te: "try_body env i c (w\<lparr>log_lines := log_lines w @ [LogSearching c]\<rparr>) = (Inl e, w1)"
      using t by simp
    then have "is_Exception e" using assms try_body_Exception by blast
    from for_names_Cons_caught [OF c te this, of xs]
    show ?thesis using Cons.IH [OF rest] x by simp
  next
    case (Inr a)
    show ?thesis
    proof (cases a)
      case (Return r)
      then have "try_body env i c (w\<lparr>log_lines := log_lines w @ [LogSearching c]\<rparr>)
          = (Inr (Return r), w1)"
        using t Inr by simp
      from for_names_Cons_Return [OF c this, of xs] show ?thesis using x by simp
    next
      case Next
      then have "try_body env i c (w\<lparr>log_lines := log_lines w @ [LogSearching c]\<rparr>)
          = (Inr Next, w1)"
        using t Inr by simp
      from for_names_Cons_Next [OF c this, of xs]
      show ?thesis using Cons.IH [OF rest] x by simp
    qed
  qed
qed

lemma map_snd_enumerate: "map snd (enumerate k xs) = xs"
  by (induction xs arbitrary: k) simp_all

lemma get_cid_and_smiles_returns:
  assumes "raises_only_Exception env" and "encodable name"
  shows "\<exists>r w'. get_cid_and_smiles env name w = (Inr r, w')"
proof -
  have "list_all encodable (map snd (enumerate 0 (names_to_try name)))"
    using encodable_names_to_try [OF assms(2)] by (simp only: map_snd_enumerate)
  then obtain r w1 where f: "for_names env (enumerate 0 (names_to_try name)) w = (Inr r, w1)"
    using for_names_returns [OF assms(1)] by blast
  have "log_text_ok (LogAllFailed (strip name))"
    using encodable_strip [OF assms(2)] by simp
  then show ?thesis using f by (cases r) (auto simp: get_cid_and_smiles_def write_log_def)
qed

subsection \<open>What a returned triple rests on\<close>

lemma try_smiles_Return:
  assumes "try_smiles env i cid w = (Inr (Return (c, s, st)), w')"
  shows "c = cid \<and> st = (if i = 0 then Success_Original_Name else Success_Name_Variant) \<and>
    (\<exists>m m' smiles_reply. request_smiles env cid m = (Inr smiles_reply, m') \<and>
        smiles_reply \<noteq> [] \<and> smiles_of_reply env smiles_reply = Inr s)"
proof (cases "request_smiles env cid (net w)")
  case (Pair r n2)
  show ?thesis
  proof (cases r)
    case (Inl e)
    then show ?thesis using assms Pair by (simp add: try_smiles_def)
  next
    case (Inr smiles_reply)
    have ne: "smiles_reply \<noteq> []"
      using assms Pair Inr by (auto simp: try_smiles_def split: if_splits)
    then have dec: "smiles_of_reply env smiles_reply = Inr s" and c: "c = cid"
      and st: "st = (if i = 0 then Success_Original_Name else Success_Name_Variant)"
      using assms Pair Inr
      by (auto simp: try_smiles_def write_log_def split: sum.splits if_splits)
    have "request_smiles env cid (net w) = (Inr smiles_reply, n2)" using Pair Inr by simp
    then show ?thesis using ne dec c st by blast
  qed
qed

lemma try_body_Return:
  assumes "try_body env i name_attempt w = (Inr (Return (c, s, st)), w')"
  shows "st = (if i = 0 then Success_Original_Name else Success_Name_Variant) \<and>
    resolves env name_attempt c s"
proof (cases "request_cids env name_attempt (net w)")
  case (Pair r n1)
  show ?thesis
  proof (cases r)
    case (Inl e)
    then show ?thesis using assms Pair by (simp add: try_body_def)
  next
    case (Inr cid_reply)
    have ne: "cid_reply \<noteq> []"
      using assms Pair Inr by (auto simp: try_body_def split: if_splits)
    then obtain cid_result w2 where dec: "cid_of_reply env cid_reply = Inr cid_result"
      and step2: "try_smiles env i cid_result w2 = (Inr (Return (c, s, st)), w')"
      using assms Pair Inr
      by (auto simp: try_body_def write_log_def split: sum.splits if_splits)
    have c: "c = cid_result" using try_smiles_Return [OF step2] by simp
    have "request_cids env name_attempt (net w) = (Inr cid_reply, n1)" using Pair Inr by simp
    then have "\<exists>n n' cid_reply. request_cids env name_attempt n = (Inr cid_reply, n') \<and>
        cid_reply \<noteq> [] \<and> cid_of_reply env cid_reply = Inr c"
      using ne dec c by blast
    then show ?thesis using try_smiles_Return [OF step2] c by (simp add: resolves_def)
  qed
qed

lemma for_names_Some:
  "for_names env xs w = (Inr (Some (c, s, st)), w') \<Longrightarrow>
     \<exists>i name_attempt. (i, name_attempt) \<in> set xs \<and>
       st = (if i = 0 then Success_Original_Name else Success_Name_Variant) \<and>
       resolves env name_attempt c s"
proof (induction xs arbitrary: w)
  case Nil
  then show ?case by simp
next
  case (Cons x xs)
  obtain i name_attempt where x: "x = (i, name_attempt)" by (cases x)
  have enc: "encodable name_attempt"
  proof (rule ccontr)
    assume "\<not> encodable name_attempt"
    from for_names_Cons_bad [OF this, of env i xs w] show False using Cons.prems x by simp
  qed
  obtain t w1 where
    t: "try_body env i name_attempt (w\<lparr>log_lines := log_lines w @ [LogSearching name_attempt]\<rparr>)
        = (t, w1)"
    by (cases "try_body env i name_attempt
        (w\<lparr>log_lines := log_lines w @ [LogSearching name_attempt]\<rparr>)")
  have tail: "\<exists>j a. (j, a) \<in> set (x # xs) \<and>
       st = (if j = 0 then Success_Original_Name else Success_Name_Variant) \<and>
       resolves env a c s"
    if "for_names env xs w2 = (Inr (Some (c, s, st)), w')" for w2
  proof -
    from Cons.IH [OF that] obtain j a where "(j, a) \<in> set xs"
      "st = (if j = 0 then Success_Original_Name else Success_Name_Variant)"
      "resolves env a c s"
      by blast
    then have "(j, a) \<in> set (x # xs) \<and>
       st = (if j = 0 then Success_Original_Name else Success_Name_Variant) \<and>
       resolves env a c s"
      by simp
    then show ?thesis by blast
  qed
  show ?case
  proof (cases t)
    case (Inl e)
    show ?thesis
    proof (cases "is_Exception e")
      case True
      have te: "try_body env i name_attempt
          (w\<lparr>log_lines := log_lines w @ [LogSearching name_attempt]\<rparr>) = (Inl e, w1)"
        using t Inl by simp
      have "for_names env (x # xs) w =
          for_names env xs (w1\<lparr>log_lines := log_lines w1 @ [LogFailedFor name_attempt e]\<rparr>)"
        using for_names_Cons_caught [OF enc te True, of xs] x by simp
      then have "for_names env xs (w1\<lparr>log_lines := log_lines w1 @ [LogFailedFor name_attempt e]\<rparr>)
          = (Inr (Some (c, s, st)), w')"
        using Cons.prems by simp
      then show ?thesis by (rule tail)
    next
      case False
      have te: "try_body env i name_attempt
          (w\<lparr>log_lines := log_lines w @ [LogSearching name_attempt]\<rparr>) = (Inl e, w1)"
        using t Inl by simp
      have "for_names env (x # xs) w = (Inl e, w1)"
        using for_names_Cons_uncaught [OF enc te False, of xs] x by simp
      then show ?thesis using Cons.prems by simp
    qed
  next
    case (Inr a)
    show ?thesis
    proof (cases a)
      case (Return r)
      have tr: "try_body env i name_attempt
          (w\<lparr>log_lines := log_lines w @ [LogSearching name_attempt]\<rparr>) = (Inr (Return r), w1)"
        using t Inr Return by simp
      have "for_names env (x # xs) w = (Inr (Some r), w1)"
        using for_names_Cons_Return [OF enc tr, of xs] x by simp
      then have "r = (c, s, st)" using Cons.prems by simp
      then have "try_body env i name_attempt
          (w\<lparr>log_lines := log_lines w @ [LogSearching name_attempt]\<rparr>)
          = (Inr (Return (c, s, st)), w1)"
        using t Inr Return by simp
      from try_body_Return [OF this]
      have "(i, name_attempt) \<in> set (x # xs) \<and>
         st = (if i = 0 then Success_Original_Name else Success_Name_Variant) \<and>
         resolves env name_attempt c s"
        using x by simp
      then show ?thesis by blast
    next
      case Next
      have tn: "try_body env i name_attempt
          (w\<lparr>log_lines := log_lines w @ [LogSearching name_attempt]\<rparr>) = (Inr Next, w1)"
        using t Inr Next by simp
      have "for_names env (x # xs) w = for_names env xs w1"
        using for_names_Cons_Next [OF enc tn, of xs] x by simp
      then have "for_names env xs w1 = (Inr (Some (c, s, st)), w')"
        using Cons.prems by simp
      then show ?thesis by (rule tail)
    qed
  qed
qed

lemma status_strings_distinct:
  "Failed \<noteq> Success_Original_Name" "Failed \<noteq> Success_Name_Variant"
  "Success_Original_Name \<noteq> Success_Name_Variant"
  by (simp_all add: Failed_def Success_Original_Name_def Success_Name_Variant_def ascii_def)

lemma enumerate_names_to_try:
  "(i, c) \<in> set (enumerate 0 (names_to_try n)) \<Longrightarrow>
     (i = 0 \<and> c = strip n) \<or> (i \<noteq> 0 \<and> c = alpha_name (strip n) \<and> c \<noteq> strip n)"
  by (cases "alpha_name (strip n) = strip n") (auto simp: names_to_try_eq)

text \<open>What a returned triple is: total failure, or the values of one successful attempt.\<close>

lemma get_cid_and_smiles_result:
  assumes "get_cid_and_smiles env name w = (Inr (c, s, st), w')"
  shows "(st = Failed \<and> c = PNone \<and> s = PNone) \<or>
         (st = Success_Original_Name \<and> resolves env (strip name) c s) \<or>
         (st = Success_Name_Variant \<and> alpha_name (strip name) \<noteq> strip name \<and>
            resolves env (alpha_name (strip name)) c s)"
proof -
  obtain r w1 where f: "for_names env (enumerate 0 (names_to_try name)) w = (r, w1)"
    by (cases "for_names env (enumerate 0 (names_to_try name)) w")
  show ?thesis
  proof (cases r)
    case (Inl e)
    then show ?thesis using assms f by (simp add: get_cid_and_smiles_def)
  next
    case (Inr opt)
    show ?thesis
    proof (cases opt)
      case None
      then show ?thesis
        using assms f Inr
        by (auto simp: get_cid_and_smiles_def write_log_def split: if_splits)
    next
      case (Some t)
      then have "t = (c, s, st)" using assms f Inr by (simp add: get_cid_and_smiles_def)
      then have "for_names env (enumerate 0 (names_to_try name)) w = (Inr (Some (c, s, st)), w1)"
        using f Inr Some by simp
      from for_names_Some [OF this] obtain i name_attempt where
        mem: "(i, name_attempt) \<in> set (enumerate 0 (names_to_try name))" and
        st: "st = (if i = 0 then Success_Original_Name else Success_Name_Variant)" and
        res: "resolves env name_attempt c s"
        by blast
      from enumerate_names_to_try [OF mem] show ?thesis using st res by auto
    qed
  qed
qed

subsection \<open>The resolver on the mocked service\<close>

lemma names_to_try_greek_Tocopherol:
  "names_to_try greek_Tocopherol = [greek_Tocopherol, ascii ''alpha-Tocopherol'']"
  by (simp add: names_to_try_def greek_Tocopherol_def dict_fromkeys_def alpha_name_def strip_def isspace_def greek_alpha_def greek_beta_def greek_gamma_def ascii_def)

lemma names_to_try_alpha_Pinene: "names_to_try (ascii ''alpha-Pinene'') = [ascii ''alpha-Pinene'']"
  by (simp add: names_to_try_def dict_fromkeys_def alpha_name_def strip_def isspace_def
      greek_alpha_def greek_beta_def greek_gamma_def ascii_def)

lemma names_to_try_surrogate: "names_to_try surrogate_name = [surrogate_name]"
  by (simp add: names_to_try_def dict_fromkeys_def alpha_name_def strip_def isspace_def
      greek_alpha_def greek_beta_def greek_gamma_def surrogate_name_def)

lemma encodable_examples:
  "encodable greek_Tocopherol" "encodable (ascii ''alpha-Tocopherol'')"
  "encodable (ascii ''Unobtainium'')" "\<not> encodable surrogate_name"
  by (simp_all add: encodable_def greek_Tocopherol_def greek_alpha_def ascii_def
      surrogate_name_def)

lemma mock_bodies_distinct:
  "cid_body \<noteq> []" "smiles_body \<noteq> []" "cid_body \<noteq> smiles_body" "cid_body \<noteq> null_body"
  "smiles_body \<noteq> null_body"
  by (simp_all add: cid_body_def smiles_body_def null_body_def)

lemma mock_cid_of_reply: "cid_of_reply (mock_env v) cid_body = Inr (PInt 14985)"
  by (simp add: cid_of_reply_def mock_env_def bind_exn_def)

lemma mock_smiles_of_reply: "smiles_of_reply (mock_env v) smiles_body = Inr v"
  using mock_bodies_distinct by (simp add: smiles_of_reply_def mock_env_def bind_exn_def)

lemma mock_null_of_reply: "cid_of_reply (mock_env v) null_body = Inr PNone"
  using mock_bodies_distinct by (simp add: cid_of_reply_def mock_env_def bind_exn_def)

lemma mock_try_body_greek:
  "try_body (mock_env v) i greek_Tocopherol w = (Inl (HTTPError 404), w\<lparr>net := Suc (net w)\<rparr>)"
  by (simp add: try_body_def mock_env_def greek_Tocopherol_neq)

lemma mock_try_body_alpha:
  "try_body (mock_env v) (Suc 0) (ascii ''alpha-Tocopherol'') w =
     (Inr (Return (PInt 14985, v, Success_Name_Variant)),
      w\<lparr>net := Suc (Suc (net w)),
        log_lines := log_lines w @ [LogFoundCID (PInt 14985), LogSuccess (PInt 14985)]\<rparr>)"
proof -
  have r1: "request_cids (mock_env v) (ascii ''alpha-Tocopherol'') n = (Inr cid_body, Suc n)" for n
    by (simp add: mock_env_def)
  have r2: "request_smiles (mock_env v) (PInt 14985) n = (Inr smiles_body, Suc n)" for n
    by (simp add: mock_env_def)
  show ?thesis
    by (simp add: try_body_def try_smiles_def r1 r2 mock_bodies_distinct mock_cid_of_reply
        mock_smiles_of_reply write_log_def)
qed

lemma mock_get_cid_and_smiles_found:
  "get_cid_and_smiles (mock_env v) greek_Tocopherol w =
   (Inr (PInt 14985, v, Success_Name_Variant),
    w\<lparr>log_lines := log_lines w @
         [LogSearching greek_Tocopherol, LogFailedFor greek_Tocopherol (HTTPError 404),
          LogSearching (ascii ''alpha-Tocopherol''), LogFoundCID (PInt 14985),
          LogSuccess (PInt 14985)],
       net := Suc (Suc (Suc (net w)))\<rparr>)"
  by (simp add: get_cid_and_smiles_def names_to_try_greek_Tocopherol for_names.simps
      encodable_examples mock_try_body_greek mock_try_body_alpha write_log_def)

lemma mock_get_cid_and_smiles:
  "get_cid_and_smiles (mock_env v) greek_Tocopherol fresh_world =
   (Inr (PInt 14985, v, Success_Name_Variant),
    \<lparr>log_lines = [LogSearching greek_Tocopherol, LogFailedFor greek_Tocopherol (HTTPError 404),
       LogSearching (ascii ''alpha-Tocopherol''), LogFoundCID (PInt 14985), LogSuccess (PInt 14985)],
     net = 3, results_csv = None, clean_csv = None\<rparr>)"
  by (simp add: mock_get_cid_and_smiles_found fresh_world_def)

lemma surrogate_get_cid_and_smiles:
  "get_cid_and_smiles env surrogate_name w = (Inl UnicodeEncodeError, w)"
  by (simp add: get_cid_and_smiles_def names_to_try_surrogate for_names.simps
      encodable_examples write_log_def)

subsection \<open>What the resolver writes to the log\<close>

lemma searched_append: "searched (a @ b) = searched a @ searched b"
  by (induction a rule: searched.induct) simp_all

lemma try_smiles_searched:
  "try_smiles env i cid w = (t, w') \<Longrightarrow> searched (log_lines w') = searched (log_lines w)"
  by (cases "request_smiles env cid (net w)")
     (auto simp: try_smiles_def write_log_def searched_append split: sum.splits if_splits)

lemma try_body_searched:
  assumes "try_body env i c w = (t, w')"
  shows "searched (log_lines w') = searched (log_lines w)"
proof (cases "request_cids env c (net w)")
  case (Pair r n1)
  show ?thesis
  proof (cases r)
    case (Inl e)
    then show ?thesis using assms Pair by (auto simp: try_body_def)
  next
    case (Inr cid_reply)
    show ?thesis
    proof (cases "cid_reply = []")
      case True
      then show ?thesis using assms Pair Inr by (auto simp: try_body_def)
    next
      case False
      show ?thesis
      proof (cases "cid_of_reply env cid_reply")
        case (Inl e)
        then show ?thesis using assms Pair Inr False by (auto simp: try_body_def)
      next
        case inr: (Inr cid_result)
        show ?thesis
        proof (cases "log_text_ok (LogFoundCID cid_result)")
          case True
          then have "try_smiles env i cid_result
              (w\<lparr>net := n1, log_lines := log_lines w @ [LogFoundCID cid_result]\<rparr>) = (t, w')"
            using assms Pair Inr False inr by (simp add: try_body_def write_log_def)
          from try_smiles_searched [OF this] show ?thesis by (simp add: searched_append)
        next
          case bad: False
          then show ?thesis
            using assms Pair Inr False inr by (auto simp: try_body_def write_log_def)
        qed
      qed
    qed
  qed
qed

lemma for_names_None_searched:
  "for_names env xs w = (Inr None, w') \<Longrightarrow>
     searched (log_lines w') = searched (log_lines w) @ map snd xs"
proof (induction xs arbitrary: w)
  case Nil
  then show ?case by simp
next
  case (Cons x xs)
  obtain i c where x: "x = (i, c)" by (cases x)
  have enc: "encodable c"
  proof (rule ccontr)
    assume "\<not> encodable c"
    from for_names_Cons_bad [OF this, of env i xs w] show False using Cons.prems x by simp
  qed
  obtain t w1 where t: "try_body env i c (w\<lparr>log_lines := log_lines w @ [LogSearching c]\<rparr>) = (t, w1)"
    by (cases "try_body env i c (w\<lparr>log_lines := log_lines w @ [LogSearching c]\<rparr>)")
  have w1: "searched (log_lines w1) = searched (log_lines w) @ [c]"
    using try_body_searched [OF t] by (simp add: searched_append)
  show ?case
  proof (cases t)
    case (Inl e)
    have te: "try_body env i c (w\<lparr>log_lines := log_lines w @ [LogSearching c]\<rparr>) = (Inl e, w1)"
      using t Inl by simp
    show ?thesis
    proof (cases "is_Exception e")
      case True
      from for_names_Cons_caught [OF enc te True, of xs]
      have "for_names env xs (w1\<lparr>log_lines := log_lines w1 @ [LogFailedFor c e]\<rparr>) = (Inr None, w')"
        using Cons.prems x by simp
      from Cons.IH [OF this] show ?thesis using w1 x by (simp add: searched_append)
    next
      case False
      from for_names_Cons_uncaught [OF enc te False, of xs]
      show ?thesis using Cons.prems x by simp
    qed
  next
    case (Inr a)
    show ?thesis
    proof (cases a)
      case (Return r)
      then have "try_body env i c (w\<lparr>log_lines := log_lines w @ [LogSearching c]\<rparr>)
          = (Inr (Return r), w1)"
        using t Inr by simp
      from for_names_Cons_Return [OF enc this, of xs] show ?thesis using Cons.prems x by simp
    next
      case Next
      then have "try_body env i c (w\<lparr>log_lines := log_lines w @ [LogSearching c]\<rparr>)
          = (Inr Next, w1)"
        using t Inr by simp
      from for_names_Cons_Next [OF enc this, of xs]
      have "for_names env xs w1 = (Inr None, w')" using Cons.prems x by simp
      from Cons.IH [OF this] show ?thesis using w1 x by simp
    qed
  qed
qed

lemma get_cid_and_smiles_Failed_searched:
  assumes "get_cid_and_smiles env name w = (Inr (c, s, Failed), w')"
  shows "searched (log_lines w') = searched (log_lines w) @ names_to_try name"
proof -
  obtain r w1 where f: "for_names env (enumerate 0 (names_to_try name)) w = (r, w1)"
    by (cases "for_names env (enumerate 0 (names_to_try name)) w")
  show ?thesis
  proof (cases r)
    case (Inl e)
    then show ?thesis using assms f by (simp add: get_cid_and_smiles_def)
  next
    case (Inr opt)
    show ?thesis
    proof (cases opt)
      case None
      then have "w' = w1\<lparr>log_lines := log_lines w1 @ [LogAllFailed (strip name)]\<rparr>"
        using assms f Inr
        by (auto simp: get_cid_and_smiles_def write_log_def split: if_splits)
      moreover have "searched (log_lines w1) = searched (log_lines w) @ names_to_try name"
        using for_names_None_searched [of env _ w w1] f Inr None
        by (simp add: map_snd_enumerate)
      ultimately show ?thesis by (simp add: searched_append)
    next
      case (Some tr)
      then have "tr = (c, s, Failed)" using assms f Inr by (simp add: get_cid_and_smiles_def)
      then have "for_names env (enumerate 0 (names_to_try name)) w = (Inr (Some (c, s, Failed)), w1)"
        using f Inr Some by simp
      from for_names_Some [OF this] show ?thesis
        using status_strings_distinct by (auto split: if_splits)
    qed
  qed
qed

subsection \<open>The resolver against a stable service\<close>

lemma try_smiles_stable:
  assumes "stable_service env"
  shows "fst (try_smiles env i cid w) = fst (try_smiles env i cid w2)"
proof -
  obtain r n where a: "request_smiles env cid (net w) = (r, n)"
    by (cases "request_smiles env cid (net w)")
  obtain r2 n2 where b: "request_smiles env cid (net w2) = (r2, n2)"
    by (cases "request_smiles env cid (net w2)")
  have "fst (request_smiles env cid (net w)) = fst (request_smiles env cid (net w2))"
    using assms unfolding stable_service_def by blast
  then have "r2 = r" using a b by simp
  then show ?thesis using a b
    by (cases r) (simp_all add: try_smiles_def write_log_def split: sum.splits)
qed

lemma try_body_stable:
  assumes "stable_service env"
  shows "fst (try_body env i c w) = fst (try_body env i c w2)"
proof -
  obtain r n where a: "request_cids env c (net w) = (r, n)"
    by (cases "request_cids env c (net w)")
  obtain r2 n2 where b: "request_cids env c (net w2) = (r2, n2)"
    by (cases "request_cids env c (net w2)")
  have "fst (request_cids env c (net w)) = fst (request_cids env c (net w2))"
    using assms unfolding stable_service_def by blast
  then have "r2 = r" using a b by simp
  then show ?thesis using a b try_smiles_stable [OF assms]
    by (cases r) (simp_all add: try_body_def write_log_def split: sum.splits)
qed

lemma for_names_stable:
  assumes "stable_service env"
  shows "fst (for_names env xs w) = fst (for_names env xs w2)"
proof (induction xs arbitrary: w w2)
  case Nil
  show ?case by simp
next
  case (Cons x xs)
  obtain i c where x: "x = (i, c)" by (cases x)
  show ?case
  proof (cases "encodable c")
    case False
    then show ?thesis using for_names_Cons_bad [of c env i xs] x by simp
  next
    case enc: True
    let ?w = "w\<lparr>log_lines := log_lines w @ [LogSearching c]\<rparr>"
    let ?w2 = "w2\<lparr>log_lines := log_lines w2 @ [LogSearching c]\<rparr>"
    obtain t w1 where t: "try_body env i c ?w = (t, w1)" by (cases "try_body env i c ?w")
    obtain t2 w3 where t2: "try_body env i c ?w2 = (t2, w3)" by (cases "try_body env i c ?w2")
    have same: "t2 = t" using try_body_stable [OF assms, of i c ?w ?w2] t t2 by simp
    show ?thesis
    proof (cases t)
      case (Inl e)
      have te: "try_body env i c ?w = (Inl e, w1)" "try_body env i c ?w2 = (Inl e, w3)"
        using t t2 same Inl by simp_all
      show ?thesis
      proof (cases "is_Exception e")
        case True
        from for_names_Cons_caught [OF enc te(1) True, of xs]
          for_names_Cons_caught [OF enc te(2) True, of xs]
        show ?thesis
          using x Cons.IH [of "w1\<lparr>log_lines := log_lines w1 @ [LogFailedFor c e]\<rparr>"
              "w3\<lparr>log_lines := log_lines w3 @ [LogFailedFor c e]\<rparr>"]
          by simp
      next
        case False
        from for_names_Cons_uncaught [OF enc te(1) False, of xs]
          for_names_Cons_uncaught [OF enc te(2) False, of xs]
        show ?thesis using x by simp
      qed
    next
      case (Inr a)
      show ?thesis
      proof (cases a)
        case (Return r)
        then have tr: "try_body env i c ?w = (Inr (Return r), w1)"
          "try_body env i c ?w2 = (Inr (Return r), w3)"
          using t t2 same Inr by simp_all
        from for_names_Cons_Return [OF enc tr(1), of xs] for_names_Cons_Return [OF enc tr(2), of xs]
        show ?thesis using x by simp
      next
        case Next
        then have tn: "try_body env i c ?w = (Inr Next, w1)" "try_body env i c ?w2 = (Inr Next, w3)"
          using t t2 same Inr by simp_all
        from for_names_Cons_Next [OF enc tn(1), of xs] for_names_Cons_Next [OF enc tn(2), of xs]
        show ?thesis using x Cons.IH [of w1 w3] by simp
      qed
    qed
  qed
qed

lemma fst_get_cid_and_smiles:
  "fst (get_cid_and_smiles env name w) =
     (case fst (for_names env (enumerate 0 (names_to_try name)) w) of
        Inl e \<Rightarrow> Inl e
      | Inr None \<Rightarrow>
          (if encodable (strip name) then Inr (PNone, PNone, Failed) else Inl UnicodeEncodeError)
      | Inr (Some r) \<Rightarrow> Inr r)"
  by (cases "for_names env (enumerate 0 (names_to_try name)) w")
     (simp add: get_cid_and_smiles_def write_log_def split: sum.splits option.splits)

subsection \<open>Facts about the test doubles\<close>

lemma mock_no_null_reply: "v \<noteq> PNone \<Longrightarrow> no_null_reply (mock_env v)"
proof -
  assume v: "v \<noteq> PNone"
  have "cid_of_reply (mock_env v) b \<noteq> Inr PNone"
    if "request_cids (mock_env v) x n = (Inr b, n')" for x n n' b
  proof -
    have "b = cid_body" using that by (auto simp: mock_env_def split: if_splits)
    then show ?thesis by (simp add: mock_cid_of_reply)
  qed
  moreover have "smiles_of_reply (mock_env v) b \<noteq> Inr PNone"
    if "request_smiles (mock_env v) c m = (Inr b, m')" for c m m' b
  proof -
    have "b = smiles_body" using that by (auto simp: mock_env_def split: if_splits)
    then show ?thesis using v by (simp add: mock_smiles_of_reply)
  qed
  ultimately show ?thesis unfolding no_null_reply_def by blast
qed

lemma mock_stable_service: "stable_service (mock_env v)"
  by (simp add: stable_service_def mock_env_def)


lemma failing_raises_only_Exception: "raises_only_Exception failing_env"
  by (simp add: raises_only_Exception_def failing_env_def)

section \<open>The claims about the resolver\<close>

text \<open>
  C1, as amended. For every triple \<^verbatim>\<open>(cid, smiles, status)\<close> that \<open>get_cid_and_smiles\<close>
  returns: the status is one of the three status texts; if it is \<^verbatim>\<open>'Failed'\<close>, identifier
  and structure are both \<^verbatim>\<open>None\<close>; and if no reply that the service gives decodes to JSON
  \<^verbatim>\<open>null\<close> as its first identifier or as its SMILES, then the identifier is \<^verbatim>\<open>None\<close>
  exactly when the structure is, exactly when the status is \<^verbatim>\<open>'Failed'\<close>.
\<close>

theorem C1_resolution_invariant:
  assumes "get_cid_and_smiles env name w = (Inr (cid, smiles, status), w')"
  shows "(status = Failed \<or> status = Success_Original_Name \<or> status = Success_Name_Variant) \<and>
         (status = Failed \<longrightarrow> cid = PNone \<and> smiles = PNone) \<and>
         (no_null_reply env \<longrightarrow>
            ((cid = PNone) = (smiles = PNone)) \<and> ((smiles = PNone) = (status = Failed)))"
proof -
  have res: "(status = Failed \<and> cid = PNone \<and> smiles = PNone) \<or>
      ((status = Success_Original_Name \<or> status = Success_Name_Variant) \<and>
        (\<exists>c. resolves env c cid smiles))"
    using get_cid_and_smiles_result [OF assms] by blast
  have nonnull: "cid \<noteq> PNone \<and> smiles \<noteq> PNone"
    if nn: "no_null_reply env" and rs: "resolves env c cid smiles" for c
  proof -
    obtain n n' cid_reply m m' smiles_reply where
      "request_cids env c n = (Inr cid_reply, n')" "cid_of_reply env cid_reply = Inr cid"
      "request_smiles env cid m = (Inr smiles_reply, m')"
      "smiles_of_reply env smiles_reply = Inr smiles"
      using rs unfolding resolves_def by blast
    then show ?thesis using nn unfolding no_null_reply_def by metis
  qed
  show ?thesis
    using res nonnull status_strings_distinct by blast
qed

theorem C1_resolution_invariant_witness:
  "get_cid_and_smiles (mock_env (PStr tocopherol_smiles)) greek_Tocopherol fresh_world =
     (Inr (PInt 14985, PStr tocopherol_smiles, Success_Name_Variant),
      \<lparr>log_lines = [LogSearching greek_Tocopherol, LogFailedFor greek_Tocopherol (HTTPError 404),
         LogSearching (ascii ''alpha-Tocopherol''), LogFoundCID (PInt 14985),
         LogSuccess (PInt 14985)],
       net = 3, results_csv = None, clean_csv = None\<rparr>) \<and>
   no_null_reply (mock_env (PStr tocopherol_smiles)) \<and>
   cid_of_reply (mock_env (PStr tocopherol_smiles)) null_body = Inr PNone \<and>
   ((PInt 14985 = PNone) = (PStr tocopherol_smiles = PNone)) \<and>
   ((PStr tocopherol_smiles = PNone) = (Success_Name_Variant = Failed))"
proof -
  note run = mock_get_cid_and_smiles [of "PStr tocopherol_smiles"]
  have nn: "no_null_reply (mock_env (PStr tocopherol_smiles))"
    by (rule mock_no_null_reply) simp
  show ?thesis
    using run nn mock_null_of_reply [of "PStr tocopherol_smiles"]
      C1_resolution_invariant [OF run]
    by blast
qed

text \<open>
  C1 as stated fails: when the SMILES property of the reply is JSON \<^verbatim>\<open>null\<close>, the
  resolver returns a success status with an identifier and the structure \<^verbatim>\<open>None\<close>.
\<close>

theorem C1_counterexample:
  "fst (get_cid_and_smiles (mock_env PNone) greek_Tocopherol fresh_world) =
     Inr (PInt 14985, PNone, Success_Name_Variant) \<and>
   PInt 14985 \<noteq> PNone \<and> Success_Name_Variant \<noteq> Failed"
  using status_strings_distinct by (simp add: mock_get_cid_and_smiles)

text \<open>
  C2, as amended. Whenever \<open>get_cid_and_smiles\<close> returns a status other than
  \<^verbatim>\<open>'Failed'\<close>, the request for the returned identifier gave a non-empty reply body, and
  the returned structure is the SMILES property decoded from that body (whatever it is:
  the resolver tests the body, not the decoded value, for emptiness).
\<close>

theorem C2_success_from_nonempty_reply:
  assumes "get_cid_and_smiles env name w = (Inr (cid, smiles, status), w')"
    and "status \<noteq> Failed"
  shows "\<exists>m m' smiles_reply. request_smiles env cid m = (Inr smiles_reply, m') \<and>
           smiles_reply \<noteq> [] \<and> smiles_of_reply env smiles_reply = Inr smiles"
proof -
  have "\<exists>c. resolves env c cid smiles"
    using get_cid_and_smiles_result [OF assms(1)] assms(2) by blast
  then show ?thesis unfolding resolves_def by blast
qed

theorem C2_success_from_nonempty_reply_witness:
  "get_cid_and_smiles (mock_env (PStr tocopherol_smiles)) greek_Tocopherol fresh_world =
     (Inr (PInt 14985, PStr tocopherol_smiles, Success_Name_Variant),
      \<lparr>log_lines = [LogSearching greek_Tocopherol, LogFailedFor greek_Tocopherol (HTTPError 404),
         LogSearching (ascii ''alpha-Tocopherol''), LogFoundCID (PInt 14985),
         LogSuccess (PInt 14985)],
       net = 3, results_csv = None, clean_csv = None\<rparr>) \<and>
   Success_Name_Variant \<noteq> Failed \<and>
   (\<exists>m m' smiles_reply.
      request_smiles (mock_env (PStr tocopherol_smiles)) (PInt 14985) m = (Inr smiles_reply, m') \<and>
      smiles_reply \<noteq> [] \<and>
      smiles_of_reply (mock_env (PStr tocopherol_smiles)) smiles_reply = Inr (PStr tocopherol_smiles))"
proof -
  note run = mock_get_cid_and_smiles [of "PStr tocopherol_smiles"]
  have ne: "Success_Name_Variant \<noteq> Failed" using status_strings_distinct by simp
  show ?thesis using run ne C2_success_from_nonempty_reply [OF run ne] by blast
qed

text \<open>
  C2 as stated fails: when the SMILES property of a non-empty reply is the empty string,
  the resolver returns a success status with an empty structure.
\<close>

theorem C2_counterexample:
  "fst (get_cid_and_smiles (mock_env (PStr [])) greek_Tocopherol fresh_world) =
     Inr (PInt 14985, PStr [], Success_Name_Variant) \<and>
   Success_Name_Variant \<noteq> Failed"
  using status_strings_distinct by (simp add: mock_get_cid_and_smiles)

text \<open>
  C6, as amended. If the name holds no lone surrogate (so that the log can take it) and
  the service fails only with exceptions deriving from \<^verbatim>\<open>Exception\<close>, then in every
  world \<open>get_cid_and_smiles\<close> returns a triple and raises nothing. The triple is
  \<^verbatim>\<open>(None, None, 'Failed')\<close>, and then every candidate name was searched, in order; or it
  carries a success status and the values of a candidate that resolved.
\<close>

theorem C6_resolver_never_raises:
  assumes "raises_only_Exception env" and "encodable name"
  shows "\<exists>cid smiles status w'.
           get_cid_and_smiles env name w = (Inr (cid, smiles, status), w') \<and>
           ((status = Failed \<and> cid = PNone \<and> smiles = PNone \<and>
               searched (log_lines w') = searched (log_lines w) @ names_to_try name) \<or>
            (status \<noteq> Failed \<and> (\<exists>c. c \<in> set (names_to_try name) \<and> resolves env c cid smiles)))"
proof -
  obtain r w' where "get_cid_and_smiles env name w = (Inr r, w')"
    using get_cid_and_smiles_returns [OF assms] by blast
  then obtain cid smiles status where
    run: "get_cid_and_smiles env name w = (Inr (cid, smiles, status), w')"
    by (cases r) auto
  have cands: "strip name \<in> set (names_to_try name)"
    "alpha_name (strip name) \<noteq> strip name \<Longrightarrow> alpha_name (strip name) \<in> set (names_to_try name)"
    by (simp_all add: names_to_try_eq)
  show ?thesis
  proof (cases "status = Failed")
    case True
    then have "searched (log_lines w') = searched (log_lines w) @ names_to_try name"
      using get_cid_and_smiles_Failed_searched run by blast
    moreover have "cid = PNone \<and> smiles = PNone"
      using get_cid_and_smiles_result [OF run] True status_strings_distinct by auto
    ultimately show ?thesis using run True by blast
  next
    case False
    then have "\<exists>c. c \<in> set (names_to_try name) \<and> resolves env c cid smiles"
      using get_cid_and_smiles_result [OF run] cands by blast
    then show ?thesis using run False by blast
  qed
qed

theorem C6_resolver_never_raises_witness:
  "raises_only_Exception failing_env \<and> encodable greek_Tocopherol \<and>
   (\<exists>cid smiles status w'.
      get_cid_and_smiles failing_env greek_Tocopherol fresh_world
        = (Inr (cid, smiles, status), w') \<and>
      ((status = Failed \<and> cid = PNone \<and> smiles = PNone \<and>
          searched (log_lines w') =
            searched (log_lines fresh_world) @ names_to_try greek_Tocopherol) \<or>
       (status \<noteq> Failed \<and>
          (\<exists>c. c \<in> set (names_to_try greek_Tocopherol) \<and> resolves failing_env c cid smiles))))"
  using failing_raises_only_Exception encodable_examples(1)
    C6_resolver_never_raises [OF failing_raises_only_Exception encodable_examples(1),
      of fresh_world]
  by blast

text \<open>
  C6 as stated fails: line 150 writes the candidate to the UTF-8 log before the
  \<^verbatim>\<open>try\<close>, so on a name that is a lone surrogate \<open>get_cid_and_smiles\<close> raises
  \<^verbatim>\<open>UnicodeEncodeError\<close>, whatever the service does.
\<close>

theorem C6_counterexample:
  "raises_only_Exception failing_env \<and>
   get_cid_and_smiles failing_env surrogate_name fresh_world
     = (Inl UnicodeEncodeError, fresh_world)"
  using failing_raises_only_Exception by (simp add: surrogate_get_cid_and_smiles)

text \<open>
  C9. Against a stable service (one whose replies do not depend on its state), the triple
  that \<open>get_cid_and_smiles\<close> returns for a name is the same from any two worlds; in
  particular a second run, started in the world the first run left, returns what the
  first returned.
\<close>

theorem C9_resolver_deterministic:
  assumes "stable_service env"
  shows "fst (get_cid_and_smiles env name w) = fst (get_cid_and_smiles env name w2) \<and>
         fst (get_cid_and_smiles env name (snd (get_cid_and_smiles env name w)))
           = fst (get_cid_and_smiles env name w)"
proof -
  have "fst (get_cid_and_smiles env name v) = fst (get_cid_and_smiles env name w)" for v
    unfolding fst_get_cid_and_smiles
    by (rule arg_cong [OF for_names_stable [OF assms]])
  from this [of w2] this [of "snd (get_cid_and_smiles env name w)"] show ?thesis by simp
qed

theorem C9_resolver_deterministic_witness:
  "stable_service (mock_env (PStr tocopherol_smiles)) \<and>
   fst (get_cid_and_smiles (mock_env (PStr tocopherol_smiles)) greek_Tocopherol fresh_world)
     = fst (get_cid_and_smiles (mock_env (PStr tocopherol_smiles)) greek_Tocopherol
             (fresh_world\<lparr>log_lines := [LogRule]\<rparr>)) \<and>
   fst (get_cid_and_smiles (mock_env (PStr tocopherol_smiles)) greek_Tocopherol
         (snd (get_cid_and_smiles (mock_env (PStr tocopherol_smiles)) greek_Tocopherol fresh_world)))
     = fst (get_cid_and_smiles (mock_env (PStr tocopherol_smiles)) greek_Tocopherol fresh_world)"
  using mock_stable_service [of "PStr tocopherol_smiles"]
    C9_resolver_deterministic [OF mock_stable_service, of "PStr tocopherol_smiles"
      greek_Tocopherol fresh_world "fresh_world\<lparr>log_lines := [LogRule]\<rparr>"]
  by blast

section \<open>Properties of the batch\<close>

subsection \<open>Several log lines in a row\<close>


subsection \<open>The result row\<close>









subsection \<open>The processing loop\<close>


declare process_rows.simps(2) [simp del]




subsection \<open>Cell 4\<close>



lemma cell4_empty:
  "rows df_input = [] \<Longrightarrow>
     cell4 env df_input w = (Inr None, w\<lparr>log_lines := log_lines w @ [LogNoInput]\<rparr>)"
  by (simp add: cell4_def write_log_def)





section \<open>The notebook on the sample tables\<close>















section \<open>The claims about the processing loop\<close>





section \<open>The claims about the empty and the invalid input\<close>

lemma duplicated_sum_Nil: "duplicated_sum [] = 0"
  by (simp add: duplicated_sum_def)

lemma cell2_valid_empty:
  assumes "rows df_input = []" and "Name \<in> set (columns df_input)"
  shows "cell2 (Inr df_input) w =
    (Inr df_input, w\<lparr>log_lines := log_lines w @
       [LogReadOk, LogTotalCompounds 0, LogColumns (columns df_input)]\<rparr>)"
  using assms by (simp add: cell2_def duplicated_sum_Nil write_log_def)

lemma cell2_except_Exception:
  assumes "is_Exception e"
  shows "\<exists>critical. is_critical critical \<and>
           cell2_except e w = (Inr empty_DataFrame, w\<lparr>log_lines := log_lines w @ [critical]\<rparr>)"
proof (cases "e = FileNotFoundError")
  case True
  then have "is_critical LogCriticalNotFound \<and> cell2_except e w =
      (Inr empty_DataFrame, w\<lparr>log_lines := log_lines w @ [LogCriticalNotFound]\<rparr>)"
    by (simp add: cell2_except_def write_log_def)
  then show ?thesis by blast
next
  case False
  then have "is_critical (LogCriticalReadFailed e) \<and> cell2_except e w =
      (Inr empty_DataFrame, w\<lparr>log_lines := log_lines w @ [LogCriticalReadFailed e]\<rparr>)"
    using assms by (simp add: cell2_except_def write_log_def)
  then show ?thesis by blast
qed

lemma cell2_violation:
  assumes "(\<exists>e. read_csv = Inl e \<and> is_Exception e) \<or>
           (\<exists>df. read_csv = Inr df \<and> Name \<notin> set (columns df))"
  shows "\<exists>before critical. is_critical critical \<and>
           filter is_critical before = [] \<and> searched before = [] \<and>
           cell2 read_csv w =
             (Inr empty_DataFrame, w\<lparr>log_lines := log_lines w @ before @ [critical]\<rparr>)"
proof (cases read_csv)
  case (Inl e)
  then have "is_Exception e" using assms by auto
  from cell2_except_Exception [OF this, of w] obtain critical where
    "is_critical critical"
    "cell2_except e w = (Inr empty_DataFrame, w\<lparr>log_lines := log_lines w @ [critical]\<rparr>)"
    by blast
  then have "is_critical critical \<and> filter is_critical [] = [] \<and> searched [] = [] \<and>
      cell2 read_csv w = (Inr empty_DataFrame, w\<lparr>log_lines := log_lines w @ [] @ [critical]\<rparr>)"
    using Inl by (simp add: cell2_def)
  then show ?thesis by blast
next
  case (Inr df)
  then have noname: "Name \<notin> set (columns df)" using assms by auto
  let ?before = "[LogReadOk, LogTotalCompounds (length (rows df)), LogColumns (columns df)]"
  let ?w1 = "w\<lparr>log_lines := log_lines w @ ?before\<rparr>"
  from cell2_except_Exception [of ValueError ?w1] obtain critical where
    c: "is_critical critical"
    "cell2_except ValueError ?w1 = (Inr empty_DataFrame, ?w1\<lparr>log_lines := log_lines ?w1 @ [critical]\<rparr>)"
    by auto
  have "cell2 read_csv w = (Inr empty_DataFrame, w\<lparr>log_lines := log_lines w @ ?before @ [critical]\<rparr>)"
    using Inr noname c(2) by (simp add: cell2_def write_log_def)
  moreover have "filter is_critical ?before = [] \<and> searched ?before = []" by simp
  ultimately show ?thesis using c(1) by blast
qed

lemma cell5_None:
  "cell5 env df_input None w = (Inr None, w\<lparr>log_lines := log_lines w @ [LogNoResults]\<rparr>)"
  by (simp add: cell5_def cell5_no_results_def write_log_def)

lemma run_all_no_rows:
  assumes "cell2 read_csv w = (Inr df_input, w1)" and "rows df_input = []"
  shows "run_all env read_csv w =
    (Inr (df_input, None, None), w1\<lparr>log_lines := log_lines w1 @ [LogNoInput, LogNoResults]\<rparr>)"
  using assms by (simp add: run_all_def cell4_empty cell5_None)

text \<open>
  C7, as amended. For an input table with no rows, Cell 4 takes its guard: it writes
  the one line that no input data is available and does nothing else, so the service is
  not contacted, no name is searched and no file is written; the variables of the
  processing branch (the counters of the summary among them) are not set. When the table
  has a \<^verbatim>\<open>Name\<close> column, the whole run logs the row count 0 of the input validation
  and the two lines of Cells 4 and 5, and leaves the rest of the world as it was.
\<close>

theorem C7_empty_input_short_circuits:
  assumes "rows df_input = []"
  shows "cell4 env df_input w = (Inr None, w\<lparr>log_lines := log_lines w @ [LogNoInput]\<rparr>) \<and>
         (Name \<in> set (columns df_input) \<longrightarrow>
            run_all env (Inr df_input) w =
              (Inr (df_input, None, None),
               w\<lparr>log_lines := log_lines w @
                   [LogReadOk, LogTotalCompounds 0, LogColumns (columns df_input),
                    LogNoInput, LogNoResults]\<rparr>))"
proof -
  have "cell4 env df_input w = (Inr None, w\<lparr>log_lines := log_lines w @ [LogNoInput]\<rparr>)"
    using assms by (simp add: cell4_empty)
  moreover have "run_all env (Inr df_input) w =
      (Inr (df_input, None, None),
       w\<lparr>log_lines := log_lines w @
           [LogReadOk, LogTotalCompounds 0, LogColumns (columns df_input),
            LogNoInput, LogNoResults]\<rparr>)"
    if "Name \<in> set (columns df_input)"
    using run_all_no_rows [OF cell2_valid_empty [OF assms that] assms] by simp
  ultimately show ?thesis by blast
qed

theorem C7_empty_input_short_circuits_witness:
  "rows header_only_table = [] \<and> Name \<in> set (columns header_only_table) \<and>
   cell4 failing_env header_only_table fresh_world
     = (Inr None, fresh_world\<lparr>log_lines := log_lines fresh_world @ [LogNoInput]\<rparr>) \<and>
   run_all failing_env (Inr header_only_table) fresh_world =
     (Inr (header_only_table, None, None),
      fresh_world\<lparr>log_lines := log_lines fresh_world @
         [LogReadOk, LogTotalCompounds 0, LogColumns (columns header_only_table),
          LogNoInput, LogNoResults]\<rparr>)"
proof -
  have h1: "rows header_only_table = []" by (simp add: header_only_table_def)
  have h2: "Name \<in> set (columns header_only_table)" by (simp add: header_only_table_def)
  show ?thesis
    using h1 h2 C7_empty_input_short_circuits [OF h1, of failing_env fresh_world] by blast
qed

text \<open>
  C7 as stated fails in its second half: on a table with a header and no rows the run
  sets none of the variables of the processing branch and writes no line of the
  summary; the only count it logs is the one of the input validation.
\<close>

theorem C7_counterexample:
  "run_all failing_env (Inr header_only_table) fresh_world =
     (Inr (header_only_table, None, None),
      \<lparr>log_lines = [LogReadOk, LogTotalCompounds 0, LogColumns [Name, ascii ''Formula''],
                    LogNoInput, LogNoResults],
       net = 0, results_csv = None, clean_csv = None\<rparr>) \<and>
   LogTotalProcessed 0 \<notin> set [LogReadOk, LogTotalCompounds 0,
      LogColumns [Name, ascii ''Formula''], LogNoInput, LogNoResults]"
proof -
  have h1: "rows header_only_table = []" by (simp add: header_only_table_def)
  have h2: "Name \<in> set (columns header_only_table)" by (simp add: header_only_table_def)
  show ?thesis
    using run_all_no_rows [OF cell2_valid_empty [OF h1 h2] h1, of failing_env fresh_world]
    by (simp add: fresh_world_def header_only_table_def)
qed

text \<open>
  C8. When the input file cannot be read (\<^verbatim>\<open>read_csv\<close> raises an \<^verbatim>\<open>Exception\<close>) or the
  table read has no \<^verbatim>\<open>Name\<close> column, the run ends with an empty \<^verbatim>\<open>df_input\<close> and
  without \<^verbatim>\<open>df_results\<close> and \<^verbatim>\<open>df_clean\<close>: exactly one \<^verbatim>\<open>CRITICAL\<close> line is logged (after
  the three lines of a successful read, if the file was read), followed by the lines of
  Cells 4 and 5 that there is nothing to process; no name is searched, the service is not
  contacted, and neither result file is written.
\<close>

theorem C8_input_violation_is_fatal:
  assumes "(\<exists>e. read_csv = Inl e \<and> is_Exception e) \<or>
           (\<exists>df. read_csv = Inr df \<and> Name \<notin> set (columns df))"
  shows "\<exists>w' before critical.
           run_all env read_csv w = (Inr (empty_DataFrame, None, None), w') \<and>
           net w' = net w \<and> results_csv w' = results_csv w \<and> clean_csv w' = clean_csv w \<and>
           log_lines w' = log_lines w @ before @ [critical, LogNoInput, LogNoResults] \<and>
           is_critical critical \<and> filter is_critical before = [] \<and> searched before = [] \<and>
           length (filter is_critical (before @ [critical, LogNoInput, LogNoResults])) = 1 \<and>
           searched (before @ [critical, LogNoInput, LogNoResults]) = []"
proof -
  from cell2_violation [OF assms, of w] obtain before critical where
    c: "is_critical critical" "filter is_critical before = []" "searched before = []" and
    c2: "cell2 read_csv w =
      (Inr empty_DataFrame, w\<lparr>log_lines := log_lines w @ before @ [critical]\<rparr>)"
    by blast
  have "rows empty_DataFrame = []" by (simp add: empty_DataFrame_def)
  from run_all_no_rows [OF c2 this, of env]
  have run: "run_all env read_csv w =
      (Inr (empty_DataFrame, None, None),
       w\<lparr>log_lines := log_lines w @ before @ [critical, LogNoInput, LogNoResults]\<rparr>)"
    by simp
  have crit: "searched [critical] = []" using c(1) by (cases critical) simp_all
  have "length (filter is_critical (before @ [critical, LogNoInput, LogNoResults])) = 1"
    using c by simp
  moreover have "searched (before @ [critical, LogNoInput, LogNoResults]) = []"
    using c(3) crit searched_append [of before "[critical, LogNoInput, LogNoResults]"]
      searched_append [of "[critical]" "[LogNoInput, LogNoResults]"]
    by simp
  ultimately show ?thesis using run c by simp
qed

theorem C8_input_violation_is_fatal_witness:
  "Name \<notin> set (columns nameless_table) \<and>
   (\<exists>w' before critical.
      run_all (mock_env (PStr tocopherol_smiles)) (Inr nameless_table) fresh_world
        = (Inr (empty_DataFrame, None, None), w') \<and>
      net w' = net fresh_world \<and> results_csv w' = results_csv fresh_world \<and>
      clean_csv w' = clean_csv fresh_world \<and>
      log_lines w' = log_lines fresh_world @ before @ [critical, LogNoInput, LogNoResults] \<and>
      is_critical critical \<and> filter is_critical before = [] \<and> searched before = [] \<and>
      length (filter is_critical (before @ [critical, LogNoInput, LogNoResults])) = 1 \<and>
      searched (before @ [critical, LogNoInput, LogNoResults]) = [])"
proof -
  have h: "Name \<notin> set (columns nameless_table)"
    by (simp add: nameless_table_def Name_def ascii_def)
  then have "(\<exists>e. Inr nameless_table = Inl e \<and> is_Exception e) \<or>
      (\<exists>df. (Inr nameless_table :: exn + dataframe) = Inr df \<and> Name \<notin> set (columns df))"
    by simp
  from C8_input_violation_is_fatal [OF this, of "mock_env (PStr tocopherol_smiles)" fresh_world]
  show ?thesis using h by blast
qed

section \<open>The claim about the clean set\<close>
















end
